theory Spec2Isabelle
  imports Main
begin

section \<open>Regular expressions of the recognizers\<close>

text \<open>
  Every recognizer of \<^verbatim>\<open>src/command/common.ts\<close> owns one regular expression literal and
  uses it through \<^verbatim>\<open>RegExp.prototype.test\<close> and \<^verbatim>\<open>String.prototype.match\<close>. The patterns are
  kept as data, one constructor for each construct the eight literals use, and run by one
  backtracking matcher. A token is a string of code units below 256.
\<close>

datatype cls = Digit | Word | Space | Range char char

datatype re =
    Eps
  | Chr char
  | Cls cls
  | Bol
  | Eol
  | Seq re re
  | Alt re re
  | Quant nat "nat option" re
  | Grp nat re

text \<open>
  \<^verbatim>\<open>\d\<close> is \<^verbatim>\<open>[0-9]\<close>, \<^verbatim>\<open>\w\<close> is \<^verbatim>\<open>[A-Za-z0-9_]\<close>, \<^verbatim>\<open>\s\<close> is the white space of the language
  (tab, line feed, vertical tab, form feed, carriage return, space, no-break space among
  the code units below 256), and a range compares code units.
\<close>

definition is_digit :: "char \<Rightarrow> bool" where
  "is_digit c = (48 \<le> (of_char c :: nat) \<and> (of_char c :: nat) \<le> 57)"

definition is_upper :: "char \<Rightarrow> bool" where
  "is_upper c = (65 \<le> (of_char c :: nat) \<and> (of_char c :: nat) \<le> 90)"

definition is_lower :: "char \<Rightarrow> bool" where
  "is_lower c = (97 \<le> (of_char c :: nat) \<and> (of_char c :: nat) \<le> 122)"

fun in_cls :: "cls \<Rightarrow> char \<Rightarrow> bool" where
  "in_cls Digit c = is_digit c"
| "in_cls Word c = (is_upper c \<or> is_lower c \<or> is_digit c \<or> c = CHR ''_'')"
| "in_cls Space c = ((of_char c :: nat) \<in> {9, 10, 11, 12, 13, 32, 160})"
| "in_cls (Range a b) c =
     ((of_char a :: nat) \<le> of_char c \<and> (of_char c :: nat) \<le> of_char b)"

text \<open>A literal run of characters, and a sequence of patterns read left to right.\<close>

fun lit :: "string \<Rightarrow> re" where
  "lit [] = Eps"
| "lit (x # xs) = Seq (Chr x) (lit xs)"

fun seq :: "re list \<Rightarrow> re" where
  "seq [] = Eps"
| "seq [r] = r"
| "seq (r # rs) = Seq r (seq rs)"

text \<open>The capture groups inside a pattern: a quantifier clears them before each round.\<close>

fun groups :: "re \<Rightarrow> nat list" where
  "groups (Seq a b) = groups a @ groups b"
| "groups (Alt a b) = groups a @ groups b"
| "groups (Quant mn mx a) = groups a"
| "groups (Grp n a) = n # groups a"
| "groups _ = []"

type_synonym caps = "nat \<Rightarrow> string option"

text \<open>
  A state of the matcher: the index reached in the subject, the rest of the subject from
  there, and the captures so far.
\<close>

type_synonym mstate = "nat \<times> string \<times> caps"

definition clear :: "nat list \<Rightarrow> caps \<Rightarrow> caps" where
  "clear ns c = (\<lambda>n. if n \<in> set ns then None else c n)"

fun re_size :: "re \<Rightarrow> nat" where
  "re_size (Seq a b) = Suc (re_size a + re_size b)"
| "re_size (Alt a b) = Suc (re_size a + re_size b)"
| "re_size (Quant mn mx a) = Suc (re_size a)"
| "re_size (Grp n a) = Suc (re_size a)"
| "re_size _ = 0"

text \<open>
  \<open>matches r st\<close> lists, in the order a backtracking matcher tries them, the states in
  which \<open>r\<close> can end when started in \<open>st\<close>: the left branch of an alternative before
  the right one, one more round of a greedy quantifier before stopping. A round of a
  quantifier whose minimum is reached must consume input. The first state of the list
  that lets the rest of the pattern succeed is the match.
\<close>

function matches :: "re \<Rightarrow> mstate \<Rightarrow> mstate list" where
  "matches Eps st = [st]"
| "matches (Chr a) st =
     (case st of (i, s, c) \<Rightarrow>
        (case s of [] \<Rightarrow> [] | x # xs \<Rightarrow> if x = a then [(Suc i, xs, c)] else []))"
| "matches (Cls k) st =
     (case st of (i, s, c) \<Rightarrow>
        (case s of [] \<Rightarrow> [] | x # xs \<Rightarrow> if in_cls k x then [(Suc i, xs, c)] else []))"
| "matches Bol st = (if fst st = 0 then [st] else [])"
| "matches Eol st = (if fst (snd st) = [] then [st] else [])"
| "matches (Seq a b) st = concat (map (matches b) (matches a st))"
| "matches (Alt a b) st = matches a st @ matches b st"
| "matches (Quant mn mx a) st =
     (if mx = Some 0 then [st]
      else
        (let rounds =
           concat (map
             (\<lambda>y. if mn = 0 \<and> \<not> length (fst (snd y)) < length (fst (snd st)) then []
                  else matches (Quant (mn - 1) (map_option (\<lambda>k. k - 1) mx) a) y)
             (matches a (fst st, fst (snd st), clear (groups a) (snd (snd st)))))
         in if mn \<noteq> 0 then rounds else rounds @ [st]))"
| "matches (Grp n a) st =
     map (\<lambda>y. (fst y, fst (snd y),
                (snd (snd y))(n := Some (take (fst y - fst st) (fst (snd st))))))
       (matches a st)"
  by pat_completeness auto
termination
  by (relation "measures [\<lambda>(r, st). re_size r,
                          \<lambda>(r, st). (case r of Quant mn mx a \<Rightarrow> mn | _ \<Rightarrow> 0),
                          \<lambda>(r, st). length (fst (snd st))]") auto

abbreviation rep :: "nat \<Rightarrow> re \<Rightarrow> re" where
  "rep n r \<equiv> Quant n (Some n) r"

abbreviation opt :: "re \<Rightarrow> re" where
  "opt r \<equiv> Quant 0 (Some 1) r"

abbreviation star :: "re \<Rightarrow> re" where
  "star r \<equiv> Quant 0 None r"

subsection \<open>The regular expression object\<close>

text \<open>
  A regular expression object carries its pattern, the flags \<^verbatim>\<open>g\<close> and \<^verbatim>\<open>y\<close>, and the
  mutable \<^verbatim>\<open>lastIndex\<close>. \<open>scan\<close> is the loop of the language's \<^verbatim>\<open>RegExpBuiltinExec\<close>: it
  tries the start indices from \<open>i\<close> upwards (only \<open>i\<close> when sticky) and returns the start
  index with the first end state of the matcher.
\<close>

record regexp =
  pattern :: re
  global :: bool
  sticky :: bool
  lastIndex :: nat

function scan :: "re \<Rightarrow> bool \<Rightarrow> string \<Rightarrow> nat \<Rightarrow> (nat \<times> mstate) option" where
  "scan p stk S i =
     (if length S < i then None
      else (case matches p (i, drop i S, \<lambda>n. None) of
              y # ys \<Rightarrow> Some (i, y)
            | [] \<Rightarrow> if stk then None else scan p stk S (Suc i)))"
  by pat_completeness auto
termination
  by (relation "measure (\<lambda>(p, stk, S, i). Suc (length S) - i)") auto

text \<open>
  The result of a match is the array of the language: entry 0 is the matched text, entry
  \<open>n\<close> the text of group \<open>n\<close>, \<open>None\<close> where the group took no part (\<^verbatim>\<open>undefined\<close>).
  \<^verbatim>\<open>lastIndex\<close> is read and written only under the flags \<^verbatim>\<open>g\<close> and \<^verbatim>\<open>y\<close>.
\<close>

definition RegExpBuiltinExec :: "regexp \<Rightarrow> string \<Rightarrow> caps option \<times> regexp" where
  "RegExpBuiltinExec R S =
     (let flagged = (global R \<or> sticky R);
          start = (if flagged then lastIndex R else 0)
      in case scan (pattern R) (sticky R) S start of
           None \<Rightarrow> (None, if flagged then R\<lparr>lastIndex := 0\<rparr> else R)
         | Some (i, e, rest, c) \<Rightarrow>
             (Some (c(0 := Some (take (e - i) (drop i S)))),
              if flagged then R\<lparr>lastIndex := e\<rparr> else R))"

definition regexp_test :: "regexp \<Rightarrow> string \<Rightarrow> bool \<times> regexp" where
  "regexp_test R S = (case RegExpBuiltinExec R S of (m, R') \<Rightarrow> (m \<noteq> None, R'))"

text \<open>
  \<^verbatim>\<open>str.match(regex)\<close> with a regular expression that has no \<^verbatim>\<open>g\<close> flag, as every literal
  of the source, is one run of \<^verbatim>\<open>RegExpBuiltinExec\<close>; the recognizers read only the array.
\<close>

definition str_match :: "string \<Rightarrow> regexp \<Rightarrow> caps option" where
  "str_match S R = fst (RegExpBuiltinExec R S)"

text \<open>A regular expression literal: no flag, \<^verbatim>\<open>lastIndex\<close> 0.\<close>

definition literal :: "re \<Rightarrow> regexp" where
  "literal p = \<lparr>pattern = p, global = False, sticky = False, lastIndex = 0\<rparr>"

section \<open>Numbers\<close>

text \<open>
  Unary plus on a capture. The captures that reach it are runs of at most four digits
  and, for the direction of a wind shear group, three word characters; on these the
  numeric string grammar of the language gives a decimal literal, a one-digit mantissa
  with a one-digit exponent, a one-digit hexadecimal, binary or octal literal, and
  \<^verbatim>\<open>NaN\<close> otherwise. All these values are natural numbers that a double represents
  exactly. A capture that took no part is \<^verbatim>\<open>undefined\<close>, whose number is \<^verbatim>\<open>NaN\<close>.
\<close>

datatype number = NaN | Num nat

definition digit_val :: "char \<Rightarrow> nat" where
  "digit_val c = of_char c - 48"

definition decimal :: "string \<Rightarrow> nat" where
  "decimal s = foldl (\<lambda>n c. 10 * n + digit_val c) 0 s"

definition hex_val :: "char \<Rightarrow> nat option" where
  "hex_val c =
     (if is_digit c then Some (of_char c - 48)
      else if 97 \<le> (of_char c :: nat) \<and> (of_char c :: nat) \<le> 102 then Some (of_char c - 87)
      else if 65 \<le> (of_char c :: nat) \<and> (of_char c :: nat) \<le> 70 then Some (of_char c - 55)
      else None)"

definition to_number :: "string \<Rightarrow> number" where
  "to_number s =
     (if s \<noteq> [] \<and> list_all is_digit s then Num (decimal s)
      else (case s of
              [a, m, b] \<Rightarrow>
                if is_digit a \<and> (m = CHR ''e'' \<or> m = CHR ''E'') \<and> is_digit b
                  then Num (digit_val a * 10 ^ digit_val b)
                else if a = CHR ''0'' \<and> (m = CHR ''x'' \<or> m = CHR ''X'') \<and> hex_val b \<noteq> None
                  then (case hex_val b of Some v \<Rightarrow> Num v | None \<Rightarrow> NaN)
                else if a = CHR ''0'' \<and> (m = CHR ''b'' \<or> m = CHR ''B'')
                        \<and> (b = CHR ''0'' \<or> b = CHR ''1'')
                  then Num (digit_val b)
                else if a = CHR ''0'' \<and> (m = CHR ''o'' \<or> m = CHR ''O'')
                        \<and> is_digit b \<and> digit_val b < 8
                  then Num (digit_val b)
                else NaN
            | _ \<Rightarrow> NaN))"

definition unary_plus :: "string option \<Rightarrow> number" where
  "unary_plus v = (case v of None \<Rightarrow> NaN | Some s \<Rightarrow> to_number s)"

definition scale :: "nat \<Rightarrow> number \<Rightarrow> number" where
  "scale k x = (case x of NaN \<Rightarrow> NaN | Num n \<Rightarrow> Num (k * n))"

section \<open>Data model\<close>

text \<open>
  The interfaces of \<^verbatim>\<open>model/model\<close>, the enumerations of \<^verbatim>\<open>model/enum\<close> and the
  functions of \<^verbatim>\<open>commons/converter\<close> are imported by the source and are not part of it.
  The records below hold the fields the recognizers read and write; the container is used
  through its extensible scheme, so a container may have any further fields. The types
  \<open>'c\<close> (compass label), \<open>'d\<close> (converted distance), \<open>'q\<close> (cloud quantity) and \<open>'t\<close>
  (cloud type) are those of the imported functions and tables, which are parameters.
\<close>

record 'c wind =
  speed :: number
  direction :: 'c
  degrees :: "number option"
  gust :: "number option"
  unit :: string
  minVariation :: "number option"
  maxVariation :: "number option"

record 'c windShear = "'c wind" +
  height :: number

text \<open>
  The distance of a visibility is what \<^verbatim>\<open>convertVisibility\<close> returned, or the raw token
  for the statute miles form.
\<close>

datatype 'd distance = Converted 'd | Raw string

record 'd visibility =
  distance :: "'d distance"
  minDistance :: "number option"
  minDirection :: "string option"

record ('q, 't) cloud =
  quantity :: 'q
  cloud_height :: "number option"
  cloud_type :: "'t option"

record ('c, 'd, 'q, 't) container =
  wind :: "'c wind option"
  windShear :: "'c windShear option"
  visibility :: "'d visibility option"
  clouds :: "('q, 't) cloud list"
  verticalVisibility :: "number option"

text \<open>
  The imported functions and tables. A converter receives a capture, which is a string
  or \<^verbatim>\<open>undefined\<close>; an enumeration is looked up by a property key and gives a member or
  \<^verbatim>\<open>undefined\<close>. The members of the enumerations are non-empty strings, hence truthy.
\<close>

record ('c, 'd, 'q, 't) externals =
  degreesToCardinal :: "string option \<Rightarrow> 'c"
  convertVisibility :: "string option \<Rightarrow> 'd"
  CloudQuantity :: "string \<Rightarrow> 'q option"
  CloudType :: "string \<Rightarrow> 't option"

text \<open>A capture used as a property key: \<^verbatim>\<open>undefined\<close> is the key \<^verbatim>\<open>"undefined"\<close>.\<close>

definition property_key :: "string option \<Rightarrow> string" where
  "property_key v = (case v of None \<Rightarrow> ''undefined'' | Some s \<Rightarrow> s)"

section \<open>Errors\<close>

text \<open>
  The classes of \<^verbatim>\<open>src/commons/errors.ts\<close>, each with the argument of its constructor, and
  \<^verbatim>\<open>TypeError\<close> of the language for a property read on \<^verbatim>\<open>undefined\<close>.
\<close>

datatype parse_error =
    InvalidWeatherStatementError "string option"
  | UnsupportedWeatherStatementError string "string option"
  | CommandExecutionError string
  | UnexpectedParseError "string option"
  | TypeError

fun name :: "parse_error \<Rightarrow> string" where
  "name (InvalidWeatherStatementError cause) = ''InvalidWeatherStatementError''"
| "name (UnsupportedWeatherStatementError reason cause) = ''UnsupportedWeatherStatementError''"
| "name (CommandExecutionError message) = ''CommandExecutionError''"
| "name (UnexpectedParseError message) = ''UnexpectedParseError''"
| "name TypeError = ''TypeError''"

fun message :: "parse_error \<Rightarrow> string option" where
  "message (InvalidWeatherStatementError cause) =
     Some (case cause of Some s \<Rightarrow> ''Invalid weather string: '' @ s
                       | None \<Rightarrow> ''Invalid weather string'')"
| "message (UnsupportedWeatherStatementError reason cause) =
     Some (case cause of
             Some s \<Rightarrow> ''Unsupported weather string ('' @ reason @ ''): '' @ s
           | None \<Rightarrow> ''Unsupported weather string ('' @ reason @ '')'')"
| "message (CommandExecutionError m) = Some m"
| "message (UnexpectedParseError m) = m"
| "message TypeError = None"

section \<open>The recognizers\<close>

text \<open>
  The eight classes of \<^verbatim>\<open>src/command/common.ts\<close>. An instance is its class together with
  the regular expression object of its private field.
\<close>

datatype kind =
    WindShearCommand
  | WindCommand
  | WindVariationCommand
  | MainVisibilityCommand
  | MainVisibilityNauticalMilesCommand
  | MinimalVisibilityCommand
  | VerticalVisibilityCommand
  | CloudCommand

fun regex_literal :: "kind \<Rightarrow> re" where
  "regex_literal CloudCommand =
     seq [Bol, Grp 1 (rep 3 (Cls (Range CHR ''A'' CHR ''Z''))),
          opt (Grp 2 (rep 3 (Cls Digit))),
          opt (Grp 3 (Quant 2 (Some 3) (Cls (Range CHR ''A'' CHR ''Z'')))), Eol]"
| "regex_literal MainVisibilityCommand =
     seq [Bol, Grp 1 (rep 4 (Cls Digit)), Grp 2 (Alt Eps (lit ''NDV'')), Eol]"
| "regex_literal WindCommand =
     seq [Bol, Grp 1 (Alt (lit ''VRB'') (rep 3 (Cls Digit))), Grp 2 (rep 2 (Cls Digit)),
          opt (Chr CHR ''G''), opt (Grp 3 (rep 2 (Cls Digit))),
          opt (Grp 4 (Alt (lit ''KT'') (Alt (lit ''MPS'') (lit ''KM/H''))))]"
| "regex_literal WindVariationCommand =
     seq [Bol, Grp 1 (rep 3 (Cls Digit)), Chr CHR ''V'', Grp 2 (rep 3 (Cls Digit))]"
| "regex_literal WindShearCommand =
     seq [Bol, lit ''WS'', Grp 1 (rep 3 (Cls Digit)), Chr CHR ''/'',
          Grp 2 (rep 3 (Cls Word)), Grp 3 (rep 2 (Cls Digit)),
          opt (Chr CHR ''G''), opt (Grp 4 (rep 2 (Cls Digit))),
          Grp 5 (Alt (lit ''KT'') (Alt (lit ''MPS'') (lit ''KM/H'')))]"
| "regex_literal VerticalVisibilityCommand =
     seq [Bol, lit ''VV'', Grp 1 (rep 3 (Cls Digit)), Eol]"
| "regex_literal MinimalVisibilityCommand =
     seq [Bol, Grp 1 (Seq (rep 4 (Cls Digit)) (Cls (Range CHR ''a'' CHR ''z''))), Eol]"
| "regex_literal MainVisibilityNauticalMilesCommand =
     seq [Bol, star (Grp 1 (Cls Digit)), opt (Grp 2 (Cls Space)),
          Grp 3 (Seq (opt (Grp 4 (seq [Cls Digit, Chr CHR ''/'', Cls Digit]))) (lit ''SM'')),
          Eol]"

record command =
  kind :: kind
  regex :: regexp

definition new :: "kind \<Rightarrow> command" where
  "new k = \<lparr>kind = k, regex = literal (regex_literal k)\<rparr>"

text \<open>\<^verbatim>\<open>canParse\<close> of every class is \<^verbatim>\<open>this.#regex.test(str)\<close>.\<close>

definition canParse :: "command \<Rightarrow> string \<Rightarrow> bool \<times> command" where
  "canParse cmd str =
     (case regexp_test (regex cmd) str of (b, R') \<Rightarrow> (b, cmd\<lparr>regex := R'\<rparr>))"

text \<open>
  \<^verbatim>\<open>makeWind\<close>. The arguments are captures; \<open>gust ? +gust : undefined\<close> and
  \<open>unit || "KT"\<close> test for a non-empty string. The object has no variation fields.
\<close>

definition makeWind ::
  "('c, 'd, 'q, 't) externals \<Rightarrow> string option \<Rightarrow> string option \<Rightarrow> string option
     \<Rightarrow> string option \<Rightarrow> 'c wind" where
  "makeWind X direction' speed' gust' unit' =
     \<lparr>speed = unary_plus speed',
      direction = degreesToCardinal X direction',
      degrees = (if direction' \<noteq> Some ''VRB'' then Some (unary_plus direction') else None),
      gust = (case gust' of None \<Rightarrow> None
              | Some g \<Rightarrow> if g \<noteq> [] then Some (to_number g) else None),
      unit = (case unit' of None \<Rightarrow> ''KT'' | Some u \<Rightarrow> if u \<noteq> [] then u else ''KT''),
      minVariation = None,
      maxVariation = None\<rparr>"

text \<open>
  The result of \<^verbatim>\<open>execute\<close>: the value returned or the error thrown, and the container
  as the call leaves it.
\<close>

type_synonym ('c, 'd, 'q, 't, 'z) outcome =
  "(parse_error + bool) \<times> ('c, 'd, 'q, 't, 'z) container_scheme"

definition CloudCommand_parse ::
  "('c, 'd, 'q, 't) externals \<Rightarrow> command \<Rightarrow> string \<Rightarrow> ('q, 't) cloud option" where
  "CloudCommand_parse X cmd cloudString =
     (case str_match cloudString (regex cmd) of
        None \<Rightarrow> None
      | Some m \<Rightarrow>
          (let quantity' = CloudQuantity X (property_key (m 1));
               height' = (case scale 100 (unary_plus (m 2)) of
                           NaN \<Rightarrow> None
                         | Num n \<Rightarrow> if n = 0 then None else Some (Num n));
               type' = CloudType X (property_key (m 3))
           in case quantity' of
                None \<Rightarrow> None
              | Some q \<Rightarrow> Some \<lparr>quantity = q, cloud_height = height', cloud_type = type'\<rparr>))"

definition CloudCommand_execute ::
  "('c, 'd, 'q, 't) externals \<Rightarrow> command \<Rightarrow> ('c, 'd, 'q, 't, 'z) container_scheme
     \<Rightarrow> string \<Rightarrow> ('c, 'd, 'q, 't, 'z) outcome" where
  "CloudCommand_execute X cmd container cloudString =
     (case CloudCommand_parse X cmd cloudString of
        Some cloud \<Rightarrow> (Inr True, container\<lparr>clouds := clouds container @ [cloud]\<rparr>)
      | None \<Rightarrow> (Inr False, container))"

text \<open>
  The assignment \<^verbatim>\<open>container.visibility.distance = d\<close>, which reads the visibility first.
\<close>

definition assign_distance ::
  "'d distance \<Rightarrow> ('c, 'd, 'q, 't, 'z) container_scheme \<Rightarrow> ('c, 'd, 'q, 't, 'z) outcome" where
  "assign_distance d container =
     (case visibility container of
        None \<Rightarrow> (Inl TypeError, container)
      | Some v \<Rightarrow> (Inr True, container\<lparr>visibility := Some (v\<lparr>distance := d\<rparr>)\<rparr>))"

definition MainVisibilityCommand_execute ::
  "('c, 'd, 'q, 't) externals \<Rightarrow> command \<Rightarrow> ('c, 'd, 'q, 't, 'z) container_scheme
     \<Rightarrow> string \<Rightarrow> ('c, 'd, 'q, 't, 'z) outcome" where
  "MainVisibilityCommand_execute X cmd container visibilityString =
     (case str_match visibilityString (regex cmd) of
        None \<Rightarrow> (Inr False, container)
      | Some m \<Rightarrow>
          (let distance' = Converted (convertVisibility X (m 1));
               container1 =
                 (if visibility container = None
                  then container\<lparr>visibility :=
                         Some \<lparr>distance = distance', minDistance = None, minDirection = None\<rparr>\<rparr>
                  else container)
           in assign_distance distance' container1))"

definition WindCommand_parseWind ::
  "('c, 'd, 'q, 't) externals \<Rightarrow> command \<Rightarrow> string \<Rightarrow> parse_error + 'c wind" where
  "WindCommand_parseWind X cmd windString =
     (case str_match windString (regex cmd) of
        None \<Rightarrow> Inl (UnexpectedParseError (Some ''Wind should be defined''))
      | Some m \<Rightarrow> Inr (makeWind X (m 1) (m 2) (m 3) (m 4)))"

definition WindCommand_execute ::
  "('c, 'd, 'q, 't) externals \<Rightarrow> command \<Rightarrow> ('c, 'd, 'q, 't, 'z) container_scheme
     \<Rightarrow> string \<Rightarrow> ('c, 'd, 'q, 't, 'z) outcome" where
  "WindCommand_execute X cmd container windString =
     (case WindCommand_parseWind X cmd windString of
        Inl e \<Rightarrow> (Inl e, container)
      | Inr w \<Rightarrow> (Inr True, container\<lparr>wind := Some w\<rparr>))"

text \<open>
  \<^verbatim>\<open>parseWindVariation\<close> writes the two fields of the wind object of the container; the
  model returns the updated wind and \<^verbatim>\<open>execute\<close> puts it back.
\<close>

definition WindVariationCommand_parseWindVariation ::
  "command \<Rightarrow> 'c wind \<Rightarrow> string \<Rightarrow> parse_error + 'c wind" where
  "WindVariationCommand_parseWindVariation cmd w windString =
     (case str_match windString (regex cmd) of
        None \<Rightarrow> Inl (UnexpectedParseError (Some ''Wind should be defined''))
      | Some m \<Rightarrow>
          Inr (w\<lparr>minVariation := Some (unary_plus (m 1)),
                 maxVariation := Some (unary_plus (m 2))\<rparr>))"

definition WindVariationCommand_execute ::
  "command \<Rightarrow> ('c, 'd, 'q, 't, 'z) container_scheme
     \<Rightarrow> string \<Rightarrow> ('c, 'd, 'q, 't, 'z) outcome" where
  "WindVariationCommand_execute cmd container windString =
     (case wind container of
        None \<Rightarrow> (Inl (InvalidWeatherStatementError None), container)
      | Some w \<Rightarrow>
          (case WindVariationCommand_parseWindVariation cmd w windString of
             Inl e \<Rightarrow> (Inl e, container)
           | Inr w' \<Rightarrow> (Inr True, container\<lparr>wind := Some w'\<rparr>)))"

text \<open>The object \<^verbatim>\<open>{...makeWind(...), height}\<close>.\<close>

definition spread_height :: "'c wind \<Rightarrow> number \<Rightarrow> 'c windShear" where
  "spread_height w h =
     \<lparr>speed = speed w, direction = direction w, degrees = degrees w, gust = gust w,
      unit = unit w, minVariation = minVariation w, maxVariation = maxVariation w,
      height = h\<rparr>"

definition WindShearCommand_parseWindShear ::
  "('c, 'd, 'q, 't) externals \<Rightarrow> command \<Rightarrow> string \<Rightarrow> parse_error + 'c windShear" where
  "WindShearCommand_parseWindShear X cmd windString =
     (case str_match windString (regex cmd) of
        None \<Rightarrow> Inl (UnexpectedParseError (Some ''Wind shear should be defined''))
      | Some m \<Rightarrow>
          Inr (spread_height (makeWind X (m 2) (m 3) (m 4) (m 5))
                 (scale 100 (unary_plus (m 1)))))"

definition WindShearCommand_execute ::
  "('c, 'd, 'q, 't) externals \<Rightarrow> command \<Rightarrow> ('c, 'd, 'q, 't, 'z) container_scheme
     \<Rightarrow> string \<Rightarrow> ('c, 'd, 'q, 't, 'z) outcome" where
  "WindShearCommand_execute X cmd container windString =
     (case WindShearCommand_parseWindShear X cmd windString of
        Inl e \<Rightarrow> (Inl e, container)
      | Inr ws \<Rightarrow> (Inr True, container\<lparr>windShear := Some ws\<rparr>))"

definition VerticalVisibilityCommand_execute ::
  "command \<Rightarrow> ('c, 'd, 'q, 't, 'z) container_scheme
     \<Rightarrow> string \<Rightarrow> ('c, 'd, 'q, 't, 'z) outcome" where
  "VerticalVisibilityCommand_execute cmd container visibilityString =
     (case str_match visibilityString (regex cmd) of
        None \<Rightarrow>
          (Inl (UnexpectedParseError (Some ''Vertical visibility should be defined'')),
           container)
      | Some m \<Rightarrow>
          (Inr True,
           container\<lparr>verticalVisibility := Some (scale 100 (unary_plus (m 1)))\<rparr>))"

text \<open>
  \<^verbatim>\<open>matches[1].slice(0, 4)\<close> is the first four characters, \<^verbatim>\<open>matches[1][4]\<close> the fifth
  or \<^verbatim>\<open>undefined\<close>; both read a property of the first capture.
\<close>

definition MinimalVisibilityCommand_execute ::
  "command \<Rightarrow> ('c, 'd, 'q, 't, 'z) container_scheme
     \<Rightarrow> string \<Rightarrow> ('c, 'd, 'q, 't, 'z) outcome" where
  "MinimalVisibilityCommand_execute cmd container visibilityString =
     (case str_match visibilityString (regex cmd) of
        None \<Rightarrow>
          (Inl (UnexpectedParseError (Some ''Vertical visibility should be defined'')),
           container)
      | Some m \<Rightarrow>
          (case visibility container of
             None \<Rightarrow>
               (Inl (UnexpectedParseError (Some ''container.visibility not instantiated'')),
                container)
           | Some v \<Rightarrow>
               (case m 1 of
                  None \<Rightarrow> (Inl TypeError, container)
                | Some g \<Rightarrow>
                    (Inr True,
                     container\<lparr>visibility :=
                       Some (v\<lparr>minDistance := Some (to_number (take 4 g)),
                               minDirection :=
                                 (if 4 < length g then Some [g ! 4] else None)\<rparr>)\<rparr>))))"

definition MainVisibilityNauticalMilesCommand_execute ::
  "('c, 'd, 'q, 't, 'z) container_scheme \<Rightarrow> string \<Rightarrow> ('c, 'd, 'q, 't, 'z) outcome" where
  "MainVisibilityNauticalMilesCommand_execute container visibilityString =
     (let container1 =
        (if visibility container = None
         then container\<lparr>visibility :=
                Some \<lparr>distance = Raw visibilityString, minDistance = None,
                      minDirection = None\<rparr>\<rparr>
         else container)
      in assign_distance (Raw visibilityString) container1)"

text \<open>\<^verbatim>\<open>command.execute(container, str)\<close> runs the method of the instance's class.\<close>

definition execute ::
  "('c, 'd, 'q, 't) externals \<Rightarrow> command \<Rightarrow> ('c, 'd, 'q, 't, 'z) container_scheme
     \<Rightarrow> string \<Rightarrow> ('c, 'd, 'q, 't, 'z) outcome" where
  "execute X cmd container str =
     (case kind cmd of
        WindShearCommand \<Rightarrow> WindShearCommand_execute X cmd container str
      | WindCommand \<Rightarrow> WindCommand_execute X cmd container str
      | WindVariationCommand \<Rightarrow> WindVariationCommand_execute cmd container str
      | MainVisibilityCommand \<Rightarrow> MainVisibilityCommand_execute X cmd container str
      | MainVisibilityNauticalMilesCommand \<Rightarrow>
          MainVisibilityNauticalMilesCommand_execute container str
      | MinimalVisibilityCommand \<Rightarrow> MinimalVisibilityCommand_execute cmd container str
      | VerticalVisibilityCommand \<Rightarrow> VerticalVisibilityCommand_execute cmd container str
      | CloudCommand \<Rightarrow> CloudCommand_execute X cmd container str)"

section \<open>The dispatcher\<close>

text \<open>
  \<^verbatim>\<open>CommandSupplier\<close> holds the eight instances in the order of its field initialiser.
  \<^verbatim>\<open>get\<close> walks the array by index and returns the first instance whose \<^verbatim>\<open>canParse\<close>
  holds, \<^verbatim>\<open>undefined\<close> when the loop runs out; the second component is the array of
  instances as the call leaves it.
\<close>

definition CommandSupplier :: "command list" where
  "CommandSupplier =
     [new WindShearCommand, new WindCommand, new WindVariationCommand,
      new MainVisibilityCommand, new MainVisibilityNauticalMilesCommand,
      new MinimalVisibilityCommand, new VerticalVisibilityCommand, new CloudCommand]"

function get_from :: "nat \<Rightarrow> command list \<Rightarrow> string \<Rightarrow> command option \<times> command list" where
  "get_from i commands input =
     (if i < length commands
      then (case canParse (commands ! i) input of
              (b, command) \<Rightarrow>
                if b then (Some command, commands[i := command])
                else get_from (Suc i) (commands[i := command]) input)
      else (None, commands))"
  by pat_completeness auto
termination
  by (relation "measure (\<lambda>(i, commands, input). length commands - i)") auto

definition get :: "command list \<Rightarrow> string \<Rightarrow> command option \<times> command list" where
  "get commands input = get_from 0 commands input"

section \<open>An instance for worked examples\<close>

text \<open>
  Modelled from the spec: the converters of \<^verbatim>\<open>commons/converter\<close> and the enumerations
  of \<^verbatim>\<open>model/enum\<close> are not under \<^verbatim>\<open>src/\<close>. The spec treats the two converters as black
  boxes, so here each returns the capture it was given; of the coverage codes and cloud
  types the spec's examples name \<^verbatim>\<open>BKN\<close>, \<^verbatim>\<open>SCT\<close> and \<^verbatim>\<open>CB\<close>, and \<^verbatim>\<open>XYZ\<close> as not a
  coverage code. The instance serves the worked examples only; every general statement
  below holds for all converters and tables.
\<close>

definition example_externals :: "(string option, string option, string, string) externals" where
  "example_externals =
     \<lparr>degreesToCardinal = (\<lambda>d. d),
      convertVisibility = (\<lambda>d. d),
      CloudQuantity = (\<lambda>k. if k \<in> set [''BKN'', ''SCT''] then Some k else None),
      CloudType = (\<lambda>k. if k = ''CB'' then Some k else None)\<rparr>"

text \<open>A container in which nothing has been recognized yet.\<close>

definition empty_container :: "(string option, string option, string, string) container" where
  "empty_container =
     \<lparr>wind = None, windShear = None, visibility = None, clouds = [],
      verticalVisibility = None\<rparr>"

section \<open>Token shapes of the specification\<close>

text \<open>
  The shapes the specification gives for the groups, written from its words and kept apart
  from the patterns of the source: a run of \<open>n\<close> digits, and a base wind group put
  together from its direction, speed, optional gust and optional unit.
\<close>

definition digits :: "nat \<Rightarrow> string \<Rightarrow> bool" where
  "digits n s = (length s = n \<and> list_all is_digit s)"

definition wind_group :: "string \<Rightarrow> string \<Rightarrow> string option \<Rightarrow> string option \<Rightarrow> string" where
  "wind_group d s g u =
     d @ s @ (case g of None \<Rightarrow> [] | Some gg \<Rightarrow> CHR ''G'' # gg)
       @ (case u of None \<Rightarrow> [] | Some uu \<Rightarrow> uu)"

definition wind_parts :: "string \<Rightarrow> string \<Rightarrow> string option \<Rightarrow> string option \<Rightarrow> bool" where
  "wind_parts d s g u =
     ((d = ''VRB'' \<or> digits 3 d) \<and> digits 2 s
      \<and> (case g of None \<Rightarrow> True | Some gg \<Rightarrow> digits 2 gg)
      \<and> (case u of None \<Rightarrow> True | Some uu \<Rightarrow> uu \<in> set [''KT'', ''MPS'', ''KM/H'']))"

text \<open>
  The grammar of the base wind group as a test of a whole token: direction, speed, then
  nothing, a unit, a gust, or a gust and a unit.
\<close>

definition optional_unit :: "string \<Rightarrow> bool" where
  "optional_unit r = (r = [] \<or> r \<in> set [''KT'', ''MPS'', ''KM/H''])"

definition base_wind_shape :: "string \<Rightarrow> bool" where
  "base_wind_shape t =
     ((take 3 t = ''VRB'' \<or> digits 3 (take 3 t))
      \<and> digits 2 (take 2 (drop 3 t))
      \<and> (optional_unit (drop 5 t)
         \<or> (take 1 (drop 5 t) = ''G'' \<and> digits 2 (take 2 (drop 6 t))
            \<and> optional_unit (drop 8 t))))"

text \<open>
  A wind shear group put together from its height, the parts of a wind group, and the
  unit, which the specification calls optional.
\<close>

definition shear_group ::
  "string \<Rightarrow> string \<Rightarrow> string \<Rightarrow> string option \<Rightarrow> string option \<Rightarrow> string" where
  "shear_group h d s g u = ''WS'' @ h @ ''/'' @ wind_group d s g u"

definition shear_parts ::
  "string \<Rightarrow> string \<Rightarrow> string \<Rightarrow> string option \<Rightarrow> string option \<Rightarrow> bool" where
  "shear_parts h d s g u = (digits 3 h \<and> wind_parts d s g u)"

text \<open>
  Two properties of a stored wind: gust, when present, is at least speed, as the data
  model of the specification has it; and speed and gust are numbers of two digits.
\<close>

definition two_digit_fields :: "('c, 'z) wind_scheme \<Rightarrow> bool" where
  "two_digit_fields w =
     ((case speed w of NaN \<Rightarrow> False | Num n \<Rightarrow> n \<le> 99)
      \<and> (case gust w of None \<Rightarrow> True | Some NaN \<Rightarrow> False | Some (Num n) \<Rightarrow> n \<le> 99))"

definition gust_at_least_speed :: "('c, 'z) wind_scheme \<Rightarrow> bool" where
  "gust_at_least_speed w =
     (case gust w of
        None \<Rightarrow> True
      | Some g \<Rightarrow> (case (g, speed w) of (Num a, Num b) \<Rightarrow> b \<le> a | _ \<Rightarrow> False))"

text \<open>
  The dispatcher of the specification: the recognizers in their priority order, what it
  means that one recognizes a token, and the selection of the first that does.
\<close>

definition recognizes :: "kind \<Rightarrow> string \<Rightarrow> bool" where
  "recognizes k t = fst (canParse (new k) t)"

definition priority_order :: "kind list" where
  "priority_order =
     [WindShearCommand, WindCommand, WindVariationCommand, MainVisibilityCommand,
      MainVisibilityNauticalMilesCommand, MinimalVisibilityCommand,
      VerticalVisibilityCommand, CloudCommand]"

definition select :: "string \<Rightarrow> kind option" where
  "select t = find (\<lambda>k. recognizes k t) priority_order"

text \<open>The container after the base wind group \<^verbatim>\<open>24015G25KT\<close> of the examples.\<close>

definition base_wind_container :: "(string option, string option, string, string) container" where
  "base_wind_container =
     empty_container\<lparr>wind := Some
       \<lparr>speed = Num 15, direction = Some ''240'', degrees = Some (Num 240),
        gust = Some (Num 25), unit = ''KT'', minVariation = None, maxVariation = None\<rparr>\<rparr>"

section \<open>Running the regular expressions\<close>

text \<open>
  The recursive equations of the scanning loop and of the quantifier are unfolded by
  hand; the lemmas below give the forms the recognizers' patterns need.
\<close>

declare scan.simps [simp del]
declare matches.simps(8) [simp del]

lemma scan_Bol_pos: "0 < i \<Longrightarrow> scan (Seq Bol r) False S i = None"
proof (induction "Suc (length S) - i" arbitrary: i)
  case 0
  then show ?case by (subst scan.simps) simp
next
  case (Suc n)
  have "scan (Seq Bol r) False S (Suc i) = None"
  proof (cases "length S < Suc i")
    case True
    then show ?thesis by (subst scan.simps) simp
  next
    case False
    with Suc have "n = Suc (length S) - Suc i" by simp
    then show ?thesis by (rule Suc.hyps) simp
  qed
  with Suc.prems show ?case by (subst scan.simps) simp
qed

lemma scan_Bol:
  "scan (Seq Bol r) False S 0 =
     (case matches r (0, S, \<lambda>n. None) of [] \<Rightarrow> None | y # ys \<Rightarrow> Some (0, y))"
  by (subst scan.simps) (simp add: scan_Bol_pos split: list.splits)

lemma str_match_literal:
  "str_match S (literal (Seq Bol r)) =
     (case matches r (0, S, \<lambda>n. None) of
        [] \<Rightarrow> None
      | y # ys \<Rightarrow> Some ((snd (snd y))(0 := Some (take (fst y) S))))"
  by (simp add: str_match_def RegExpBuiltinExec_def literal_def scan_Bol split: list.splits)

lemma exec_flagless: "\<not> global R \<Longrightarrow> \<not> sticky R \<Longrightarrow> snd (RegExpBuiltinExec R S) = R"
  by (simp add: RegExpBuiltinExec_def split: option.splits)

lemma canParse_new: "canParse (new k) t = (str_match t (literal (regex_literal k)) \<noteq> None, new k)"
proof -
  have "snd (RegExpBuiltinExec (literal (regex_literal k)) t) = literal (regex_literal k)"
    by (rule exec_flagless) (simp_all add: literal_def)
  then show ?thesis
    by (cases "RegExpBuiltinExec (literal (regex_literal k)) t")
       (simp add: canParse_def regexp_test_def new_def str_match_def)
qed

lemma clear_Nil [simp]: "clear [] c = c"
  by (simp add: clear_def)

lemma matches_Quant_done [simp]: "matches (Quant mn (Some 0) a) st = [st]"
  by (subst matches.simps(8)) simp

lemma matches_rep_Suc:
  "matches (Quant (Suc n) (Some (Suc n)) a) st =
     concat (map (matches (Quant n (Some n) a))
       (matches a (fst st, fst (snd st), clear (groups a) (snd (snd st)))))"
  by (subst matches.simps(8)) simp

lemma matches_rep_Cls:
  "matches (Quant n (Some n) (Cls k)) (i, s, c) =
     (if n \<le> length s \<and> list_all (in_cls k) (take n s) then [(i + n, drop n s, c)] else [])"
proof (induction n arbitrary: i s)
  case 0
  show ?case by simp
next
  case (Suc n)
  show ?case
  proof (cases s)
    case Nil
    then show ?thesis by (simp add: matches_rep_Suc)
  next
    case (Cons x xs)
    then show ?thesis by (simp add: matches_rep_Suc Suc.IH)
  qed
qed

lemma matches_lit:
  "matches (lit w) (i, s, c) =
     (if take (length w) s = w then [(i + length w, drop (length w) s, c)] else [])"
proof (induction w arbitrary: i s)
  case Nil
  show ?case by simp
next
  case (Cons x w)
  show ?case by (cases s) (auto simp: Cons.IH)
qed

lemma matches_opt:
  "matches (Quant 0 (Some (Suc 0)) a) st =
     filter (\<lambda>y. length (fst (snd y)) < length (fst (snd st)))
       (matches a (fst st, fst (snd st), clear (groups a) (snd (snd st)))) @ [st]"
proof -
  have "concat (map (\<lambda>y. if \<not> length (fst (snd y)) < n then [] else [y]) ys) =
        filter (\<lambda>y. length (fst (snd y)) < n) ys" for n and ys :: "mstate list"
    by (induction ys) auto
  then show ?thesis by (subst matches.simps(8)) (simp cong: if_cong)
qed

lemma digits_2E: "digits 2 s \<Longrightarrow> (\<And>a b. s = [a, b] \<Longrightarrow> is_digit a \<Longrightarrow> is_digit b \<Longrightarrow> P) \<Longrightarrow> P"
  by (cases s; cases "tl s"; cases "tl (tl s)") (auto simp: digits_def)

lemma digits_3E:
  "digits 3 s \<Longrightarrow> (\<And>a b c. s = [a, b, c] \<Longrightarrow> is_digit a \<Longrightarrow> is_digit b \<Longrightarrow> is_digit c \<Longrightarrow> P) \<Longrightarrow> P"
  by (cases s; cases "tl s"; cases "tl (tl s)"; cases "tl (tl (tl s))") (auto simp: digits_def)

lemma is_digit_neq [simp]:
  "is_digit a \<Longrightarrow> a \<noteq> CHR ''V''"
  "is_digit a \<Longrightarrow> a \<noteq> CHR ''G''"
  "is_digit a \<Longrightarrow> a \<noteq> CHR ''K''"
  "is_digit a \<Longrightarrow> a \<noteq> CHR ''M''"
  by (auto simp: is_digit_def)

lemma wind_match_digits:
  assumes "is_digit a" "is_digit b" "is_digit c" "is_digit x" "is_digit y"
    and "case g of None \<Rightarrow> True | Some gg \<Rightarrow> digits 2 gg"
    and "case u of None \<Rightarrow> True | Some uu \<Rightarrow> uu \<in> set [''KT'', ''MPS'', ''KM/H'']"
  shows "\<exists>m. str_match (wind_group [a, b, c] [x, y] g u) (literal (regex_literal WindCommand)) = Some m
           \<and> m 1 = Some [a, b, c] \<and> m 2 = Some [x, y] \<and> m 3 = g \<and> m 4 = u"
proof (cases g)
  case None
  with assms show ?thesis
    by (cases u) (auto simp: wind_group_def str_match_literal matches_lit matches_rep_Cls matches_opt is_digit_def clear_def)
next
  case (Some gg)
  with assms(6) obtain p q where "gg = [p, q]" "is_digit p" "is_digit q"
    by (auto elim: digits_2E)
  with assms Some show ?thesis
    by (cases u) (auto simp: wind_group_def str_match_literal matches_lit matches_rep_Cls matches_opt is_digit_def clear_def)
qed

lemma wind_match_VRB:
  assumes "is_digit x" "is_digit y"
    and "case g of None \<Rightarrow> True | Some gg \<Rightarrow> digits 2 gg"
    and "case u of None \<Rightarrow> True | Some uu \<Rightarrow> uu \<in> set [''KT'', ''MPS'', ''KM/H'']"
  shows "\<exists>m. str_match (wind_group ''VRB'' [x, y] g u) (literal (regex_literal WindCommand)) = Some m
           \<and> m 1 = Some ''VRB'' \<and> m 2 = Some [x, y] \<and> m 3 = g \<and> m 4 = u"
proof (cases g)
  case None
  with assms show ?thesis
    by (cases u) (auto simp: wind_group_def str_match_literal matches_lit matches_rep_Cls matches_opt is_digit_def clear_def)
next
  case (Some gg)
  with assms(3) obtain p q where "gg = [p, q]" "is_digit p" "is_digit q"
    by (auto elim: digits_2E)
  with assms Some show ?thesis
    by (cases u) (auto simp: wind_group_def str_match_literal matches_lit matches_rep_Cls matches_opt is_digit_def clear_def)
qed

lemma wind_match:
  assumes "wind_parts d s g u"
  shows "\<exists>m. str_match (wind_group d s g u) (literal (regex_literal WindCommand)) = Some m
           \<and> m 1 = Some d \<and> m 2 = Some s \<and> m 3 = g \<and> m 4 = u"
proof -
  from assms obtain x y where s: "s = [x, y]" "is_digit x" "is_digit y"
    by (auto simp: wind_parts_def elim: digits_2E)
  from assms have g: "case g of None \<Rightarrow> True | Some gg \<Rightarrow> digits 2 gg"
    and u: "case u of None \<Rightarrow> True | Some uu \<Rightarrow> uu \<in> set [''KT'', ''MPS'', ''KM/H'']"
    by (simp_all add: wind_parts_def)
  from assms consider "d = ''VRB''" | "digits 3 d"
    by (auto simp: wind_parts_def)
  then show ?thesis
  proof cases
    case 1
    with s g u show ?thesis using wind_match_VRB [of x y g u] by simp
  next
    case 2
    then obtain a b c where "d = [a, b, c]" "is_digit a" "is_digit b" "is_digit c"
      by (auto elim: digits_3E)
    with s g u show ?thesis using wind_match_digits [of a b c x y g u] by simp
  qed
qed

lemma to_number_digits: "s \<noteq> [] \<Longrightarrow> list_all is_digit s \<Longrightarrow> to_number s = Num (decimal s)"
  by (simp add: to_number_def)

lemma digits_to_number: "digits n s \<Longrightarrow> 0 < n \<Longrightarrow> to_number s = Num (decimal s)"
  by (rule to_number_digits) (auto simp: digits_def)

declare get_from.simps [simp del]

lemma canParse_recognizes: "canParse (new k) t = (recognizes k t, new k)"
  by (simp add: recognizes_def canParse_new)

lemma get_from_new:
  "i \<le> length ks \<Longrightarrow>
   get_from i (map new ks) t =
     (map_option new (find (\<lambda>k. recognizes k t) (drop i ks)), map new ks)"
proof (induction "length ks - i" arbitrary: i)
  case 0
  then show ?case by (subst get_from.simps) simp
next
  case (Suc n)
  then have i: "i < length ks" by simp
  then have d: "drop i ks = ks ! i # drop (Suc i) ks"
    by (simp add: Cons_nth_drop_Suc)
  have u: "(map new ks)[i := new (ks ! i)] = map new ks"
    using i by (simp add: list_update_same_conv)
  from Suc i have "get_from (Suc i) (map new ks) t =
     (map_option new (find (\<lambda>k. recognizes k t) (drop (Suc i) ks)), map new ks)"
    by simp
  with i d u show ?case
    by (subst get_from.simps) (simp add: canParse_recognizes)
qed

lemma digits_4E:
  "digits 4 s \<Longrightarrow>
   (\<And>a b c d. s = [a, b, c, d] \<Longrightarrow> is_digit a \<Longrightarrow> is_digit b \<Longrightarrow> is_digit c \<Longrightarrow> is_digit d \<Longrightarrow> P)
   \<Longrightarrow> P"
  by (cases s; cases "tl s"; cases "tl (tl s)"; cases "tl (tl (tl s))"; cases "tl (tl (tl (tl s)))")
     (auto simp: digits_def)

lemma variation_match:
  assumes "digits 3 a" "digits 3 b"
  shows "\<exists>m. str_match (a @ ''V'' @ b) (literal (regex_literal WindVariationCommand)) = Some m
           \<and> m 1 = Some a \<and> m 2 = Some b"
proof -
  from assms(1) obtain a1 a2 a3 where a: "a = [a1, a2, a3]" "is_digit a1" "is_digit a2" "is_digit a3"
    by (auto elim: digits_3E)
  from assms(2) obtain b1 b2 b3 where b: "b = [b1, b2, b3]" "is_digit b1" "is_digit b2" "is_digit b3"
    by (auto elim: digits_3E)
  from a b show ?thesis
    by (simp add: str_match_literal matches_rep_Cls)
qed

lemma minimal_visibility_match:
  assumes "digits 4 ds" "is_lower l"
  shows "\<exists>m. str_match (ds @ [l]) (literal (regex_literal MinimalVisibilityCommand)) = Some m
           \<and> m 1 = Some (ds @ [l])"
proof -
  from assms(1) obtain a b c d where "ds = [a, b, c, d]" "is_digit a" "is_digit b" "is_digit c" "is_digit d"
    by (auto elim: digits_4E)
  with assms(2) show ?thesis
    by (auto simp: str_match_literal matches_rep_Cls is_lower_def)
qed

lemma minimal_visibility_unexpected:
  assumes "digits 4 ds" "is_lower l" "visibility c = None"
  shows "recognizes MinimalVisibilityCommand (ds @ [l])"
    and "execute X (new MinimalVisibilityCommand) c (ds @ [l]) =
           (Inl (UnexpectedParseError (Some ''container.visibility not instantiated'')), c)"
proof -
  from minimal_visibility_match [OF assms(1,2)] obtain m
    where m: "str_match (ds @ [l]) (literal (regex_literal MinimalVisibilityCommand)) = Some m"
    by blast
  then show "recognizes MinimalVisibilityCommand (ds @ [l])"
    by (simp add: recognizes_def canParse_new)
  from m assms(3) show "execute X (new MinimalVisibilityCommand) c (ds @ [l]) =
           (Inl (UnexpectedParseError (Some ''container.visibility not instantiated'')), c)"
    by (simp add: execute_def new_def MinimalVisibilityCommand_execute_def)
qed

lemma direction_wordE:
  assumes "d = ''VRB'' \<or> digits 3 d"
  obtains a b c where "d = [a, b, c]" "in_cls Word a" "in_cls Word b" "in_cls Word c"
proof -
  from assms consider "d = ''VRB''" | "digits 3 d" by blast
  then show ?thesis
  proof cases
    case 1
    have "in_cls Word CHR ''V''" "in_cls Word CHR ''R''" "in_cls Word CHR ''B''"
      by (simp_all add: is_upper_def)
    with 1 that show ?thesis by blast
  next
    case 2
    then obtain a b c where "d = [a, b, c]" "is_digit a" "is_digit b" "is_digit c"
      by (auto elim: digits_3E)
    with that show ?thesis by simp
  qed
qed

lemma shear_match_chars:
  assumes "is_digit h1" "is_digit h2" "is_digit h3"
    and "in_cls Word a" "in_cls Word b" "in_cls Word c"
    and "is_digit x" "is_digit y"
    and "case g of None \<Rightarrow> True | Some gg \<Rightarrow> digits 2 gg"
    and "case u of None \<Rightarrow> True | Some uu \<Rightarrow> uu \<in> set [''KT'', ''MPS'', ''KM/H'']"
  shows "case u of
           None \<Rightarrow> str_match (shear_group [h1, h2, h3] [a, b, c] [x, y] g u)
                     (literal (regex_literal WindShearCommand)) = None
         | Some uu \<Rightarrow>
             (\<exists>m. str_match (shear_group [h1, h2, h3] [a, b, c] [x, y] g u)
                     (literal (regex_literal WindShearCommand)) = Some m
                \<and> m 1 = Some [h1, h2, h3] \<and> m 2 = Some [a, b, c] \<and> m 3 = Some [x, y]
                \<and> m 4 = g \<and> m 5 = u)"
proof (cases g)
  case None
  with assms show ?thesis
    by (cases u)
       (auto simp: shear_group_def wind_group_def str_match_literal matches_lit
          matches_rep_Cls matches_opt is_digit_def clear_def simp del: in_cls.simps(2))
next
  case (Some gg)
  with assms(9) obtain p q where "gg = [p, q]" "is_digit p" "is_digit q"
    by (auto elim: digits_2E)
  with assms Some show ?thesis
    by (cases u)
       (auto simp: shear_group_def wind_group_def str_match_literal matches_lit
          matches_rep_Cls matches_opt is_digit_def clear_def simp del: in_cls.simps(2))
qed

lemma shear_match:
  assumes "shear_parts h d s g u"
  shows "case u of
           None \<Rightarrow> str_match (shear_group h d s g u)
                     (literal (regex_literal WindShearCommand)) = None
         | Some uu \<Rightarrow>
             (\<exists>m. str_match (shear_group h d s g u)
                     (literal (regex_literal WindShearCommand)) = Some m
                \<and> m 1 = Some h \<and> m 2 = Some d \<and> m 3 = Some s \<and> m 4 = g \<and> m 5 = u)"
proof -
  from assms obtain h1 h2 h3 where h: "h = [h1, h2, h3]" "is_digit h1" "is_digit h2" "is_digit h3"
    by (auto simp: shear_parts_def elim: digits_3E)
  from assms have "d = ''VRB'' \<or> digits 3 d"
    by (simp add: shear_parts_def wind_parts_def)
  then obtain a b c where d: "d = [a, b, c]" "in_cls Word a" "in_cls Word b" "in_cls Word c"
    by (rule direction_wordE)
  from assms obtain x y where s: "s = [x, y]" "is_digit x" "is_digit y"
    by (auto simp: shear_parts_def wind_parts_def elim: digits_2E)
  from assms have g: "case g of None \<Rightarrow> True | Some gg \<Rightarrow> digits 2 gg"
    and u: "case u of None \<Rightarrow> True | Some uu \<Rightarrow> uu \<in> set [''KT'', ''MPS'', ''KM/H'']"
    by (simp_all add: shear_parts_def wind_parts_def)
  show ?thesis
    unfolding h(1) d(1) s(1)
    by (rule shear_match_chars) (fact h d s g u)+
qed

lemma matches_star_Nil:
  "matches a (fst st, fst (snd st), clear (groups a) (snd (snd st))) = [] \<Longrightarrow>
   matches (Quant 0 None a) st = [st]"
  by (subst matches.simps(8)) simp

lemma upper_not_digit: "is_upper a \<Longrightarrow> \<not> is_digit a"
  by (auto simp: is_upper_def is_digit_def)

lemma upper_not_space: "is_upper a \<Longrightarrow> \<not> in_cls Space a"
  by (auto simp: is_upper_def)

lemma three_upper_select:
  assumes "is_upper a" "is_upper b" "is_upper c"
  shows "select [a, b, c] = Some CloudCommand"
proof -
  have d: "\<not> is_digit a" "\<not> is_digit b" "\<not> is_digit c"
    using assms by (simp_all add: upper_not_digit)
  have sp: "\<not> in_cls Space a"
    by (rule upper_not_space) (rule assms(1))
  have 1: "\<not> recognizes WindShearCommand [a, b, c]"
    using d by (simp add: recognizes_def canParse_new str_match_literal matches_rep_Cls)
  have 2: "\<not> recognizes WindCommand [a, b, c]"
    using d by (simp add: recognizes_def canParse_new str_match_literal matches_rep_Cls matches_lit)
  have 3: "\<not> recognizes WindVariationCommand [a, b, c]"
    using d by (simp add: recognizes_def canParse_new str_match_literal matches_rep_Cls)
  have 4: "\<not> recognizes MainVisibilityCommand [a, b, c]"
    using d by (simp add: recognizes_def canParse_new str_match_literal matches_rep_Cls)
  have 5: "\<not> recognizes MainVisibilityNauticalMilesCommand [a, b, c]"
    using d sp
    by (simp add: recognizes_def canParse_new str_match_literal matches_star_Nil matches_opt
          del: in_cls.simps(3))
  have 6: "\<not> recognizes MinimalVisibilityCommand [a, b, c]"
    using d by (simp add: recognizes_def canParse_new str_match_literal matches_rep_Cls)
  have 7: "\<not> recognizes VerticalVisibilityCommand [a, b, c]"
    using d by (simp add: recognizes_def canParse_new str_match_literal matches_rep_Cls)
  have 8: "recognizes CloudCommand [a, b, c]"
    using assms
    by (simp add: recognizes_def canParse_new str_match_literal matches_rep_Cls matches_opt
          is_upper_def)
  from 1 2 3 4 5 6 7 8 show ?thesis
    by (simp add: select_def priority_order_def)
qed

lemma CommandSupplier_priority: "CommandSupplier = map new priority_order"
  by (simp add: CommandSupplier_def priority_order_def)

lemma three_upper_cloud_match:
  assumes "is_upper a" "is_upper b" "is_upper c"
  shows "\<exists>m. str_match [a, b, c] (literal (regex_literal CloudCommand)) = Some m
           \<and> m 1 = Some [a, b, c]"
  using assms
  by (simp add: str_match_literal matches_rep_Cls matches_opt is_upper_def clear_def)

lemma matches_frame:
  "y \<in> set (matches r st) \<Longrightarrow> n \<notin> set (groups r) \<Longrightarrow> snd (snd y) n = snd (snd st) n"
proof (induction r st arbitrary: y rule: matches.induct)
  case (1 st)
  then show ?case by simp
next
  case (2 a st)
  then show ?case by (auto split: prod.splits list.splits if_splits)
next
  case (3 k st)
  then show ?case by (auto split: prod.splits list.splits if_splits)
next
  case (4 st)
  then show ?case by (auto split: if_splits)
next
  case (5 st)
  then show ?case by (auto split: if_splits)
next
  case (6 a b st)
  from "6.prems"(1) obtain x where x: "x \<in> set (matches a st)" "y \<in> set (matches b x)"
    by auto
  from "6.prems"(2) have n: "n \<notin> set (groups a)" "n \<notin> set (groups b)"
    by simp_all
  from "6.IH"(1) [OF x(1) n(1)] "6.IH"(2) [OF x(1) x(2) n(2)] show ?case
    by simp
next
  case (7 a b st)
  from "7.prems" have "y \<in> set (matches a st) \<or> y \<in> set (matches b st)"
    and "n \<notin> set (groups a)" and "n \<notin> set (groups b)"
    by simp_all
  with "7.IH" show ?case by blast
next
  case (8 mn mx a st)
  show ?case
  proof (cases "mx = Some 0")
    case True
    with 8 show ?thesis by simp
  next
    case False
    let ?st = "(fst st, fst (snd st), clear (groups a) (snd (snd st)))"
    from "8.prems"(1) False consider "y = st"
      | x where "x \<in> set (matches a ?st)"
          "\<not> (mn = 0 \<and> \<not> length (fst (snd x)) < length (fst (snd st)))"
          "y \<in> set (matches (Quant (mn - 1) (map_option (\<lambda>k. k - 1) mx) a) x)"
      by (subst (asm) matches.simps(8)) (auto simp: Let_def split: if_splits)
    then show ?thesis
    proof cases
      case 1
      then show ?thesis by simp
    next
      case 2
      from "8.prems"(2) have n: "n \<notin> set (groups a)" by simp
      from "8.IH"(1) [OF False 2(1) n] have "snd (snd x) n = snd (snd st) n"
        using n by (simp add: clear_def)
      moreover from "8.IH"(2) [OF False 2(1) 2(2) 2(3)] "8.prems"(2)
      have "snd (snd y) n = snd (snd x) n" by simp
      ultimately show ?thesis by simp
    qed
  qed
next
  case (9 m a st)
  from "9.prems" obtain x where x: "x \<in> set (matches a st)"
    and y: "y = (fst x, fst (snd x), (snd (snd x))(m := Some (take (fst x - fst st) (fst (snd st)))))"
    and n: "n \<noteq> m" "n \<notin> set (groups a)"
    by auto
  from "9.IH" [OF x n(2)] y n(1) show ?case by simp
qed

lemma in_cls_Digit: "in_cls Digit = is_digit"
  by (rule ext) simp

lemma str_match_SomeE:
  assumes "str_match t (literal (Seq Bol r)) = Some m"
  obtains y where "y \<in> set (matches r (0, t, \<lambda>n. None))"
    and "\<And>n. n \<noteq> 0 \<Longrightarrow> m n = snd (snd y) n"
proof (cases "matches r (0, t, \<lambda>n. None)")
  case Nil
  with assms show ?thesis by (simp add: str_match_literal)
next
  case (Cons y ys)
  with assms have "m = (snd (snd y))(0 := Some (take (fst y) t))"
    by (simp add: str_match_literal)
  then have "\<And>n. n \<noteq> 0 \<Longrightarrow> m n = snd (snd y) n" by simp
  moreover from Cons have "y \<in> set (matches r (0, t, \<lambda>n. None))" by simp
  ultimately show ?thesis using that by blast
qed

lemma str_match_Some_iff:
  "str_match t (literal (Seq Bol r)) \<noteq> None \<longleftrightarrow> (\<exists>y. y \<in> set (matches r (0, t, \<lambda>n. None)))"
  by (cases "matches r (0, t, \<lambda>n. None)") (auto simp: str_match_literal)

lemma matches_SeqI:
  "x \<in> set (matches a st) \<Longrightarrow> y \<in> set (matches b x) \<Longrightarrow> y \<in> set (matches (Seq a b) st)"
  by auto

lemma matches_opt_self: "st \<in> set (matches (Quant 0 (Some (Suc 0)) a) st)"
  by (simp add: matches_opt)

lemma matches_Grp_rep:
  assumes "y \<in> set (matches (Grp n (Quant k (Some k) (Cls K))) st)"
  shows "snd (snd y) n = Some (take k (fst (snd st)))"
    and "k \<le> length (fst (snd st))"
    and "list_all (in_cls K) (take k (fst (snd st)))"
    and "fst (snd y) = drop k (fst (snd st))"
  using assms by (cases st; auto simp: matches_rep_Cls split: if_splits)+

lemma matches_opt_Grp_rep:
  assumes "y \<in> set (matches (Quant 0 (Some (Suc 0)) (Grp n (Quant k (Some k) (Cls K)))) st)"
  shows "snd (snd y) n = snd (snd st) n
         \<or> (\<exists>ds. snd (snd y) n = Some ds \<and> length ds = k \<and> list_all (in_cls K) ds)"
proof -
  let ?st = "(fst st, fst (snd st), clear (groups (Grp n (Quant k (Some k) (Cls K)))) (snd (snd st)))"
  from assms consider "y = st"
    | "y \<in> set (matches (Grp n (Quant k (Some k) (Cls K))) ?st)"
    by (auto simp: matches_opt)
  then show ?thesis
  proof cases
    case 1
    then show ?thesis by simp
  next
    case 2
    from matches_Grp_rep [OF 2] show ?thesis by simp
  qed
qed

lemma matches_opt_Grp_rep1:
  assumes "y \<in> set (matches (opt (Grp n (rep k (Cls K)))) st)"
  shows "snd (snd y) n = snd (snd st) n
         \<or> (\<exists>ds. snd (snd y) n = Some ds \<and> length ds = k \<and> list_all (in_cls K) ds)"
  using assms matches_opt_Grp_rep [of y n k K st] by simp

lemma str_match_SomeD:
  assumes "str_match t (literal (Seq Bol r)) = Some m"
  shows "\<exists>y. y \<in> set (matches r (0, t, \<lambda>n. None)) \<and> (\<forall>n. n \<noteq> 0 \<longrightarrow> m n = snd (snd y) n)"
  using assms by (rule str_match_SomeE) blast

lemma matches_SeqD:
  assumes "y \<in> set (matches (Seq a b) st)"
  shows "\<exists>x. x \<in> set (matches a st) \<and> y \<in> set (matches b x)"
  using assms by auto

lemma wind_captures:
  assumes "str_match t (literal (regex_literal WindCommand)) = Some m"
  shows "\<exists>s. m 2 = Some s \<and> digits 2 s"
    and "m 3 = None \<or> (\<exists>g. m 3 = Some g \<and> digits 2 g)"
proof -
  let ?G1 = "Grp 1 (Alt (lit ''VRB'') (rep 3 (Cls Digit)))"
  let ?G2 = "Grp 2 (rep 2 (Cls Digit))"
  let ?oG = "opt (Chr CHR ''G'')"
  let ?oG3 = "opt (Grp 3 (rep 2 (Cls Digit)))"
  let ?oG4 = "opt (Grp 4 (Alt (lit ''KT'') (Alt (lit ''MPS'') (lit ''KM/H''))))"
  let ?st = "(0, t, \<lambda>n. None) :: mstate"
  from assms
  have "str_match t (literal (Seq Bol (Seq ?G1 (Seq ?G2 (Seq ?oG (Seq ?oG3 ?oG4)))))) = Some m"
    by simp
  from str_match_SomeD [OF this]
  obtain y where y: "y \<in> set (matches (Seq ?G1 (Seq ?G2 (Seq ?oG (Seq ?oG3 ?oG4)))) ?st)"
    and m: "\<And>n. n \<noteq> 0 \<Longrightarrow> m n = snd (snd y) n"
    by blast
  from matches_SeqD [OF y] obtain y1 where y1: "y1 \<in> set (matches ?G1 ?st)"
    and r1: "y \<in> set (matches (Seq ?G2 (Seq ?oG (Seq ?oG3 ?oG4))) y1)"
    by blast
  from matches_SeqD [OF r1] obtain y2 where y2: "y2 \<in> set (matches ?G2 y1)"
    and r2: "y \<in> set (matches (Seq ?oG (Seq ?oG3 ?oG4)) y2)"
    by blast
  from matches_SeqD [OF r2] obtain y3 where y3: "y3 \<in> set (matches ?oG y2)"
    and r3: "y \<in> set (matches (Seq ?oG3 ?oG4) y3)"
    by blast
  from matches_SeqD [OF r3] obtain y4 where y4: "y4 \<in> set (matches ?oG3 y3)"
    and r4: "y \<in> set (matches ?oG4 y4)"
    by blast
  have c1: "snd (snd y1) 3 = None"
    using matches_frame [OF y1, of 3] by simp
  have "snd (snd y2) 3 = snd (snd y1) 3"
    by (rule matches_frame [OF y2]) simp
  with c1 have c2: "snd (snd y2) 3 = None" by simp
  have d2: "digits 2 (take 2 (fst (snd y1)))"
    using matches_Grp_rep(2,3) [OF y2] by (simp add: digits_def in_cls_Digit)
  with matches_Grp_rep(1) [OF y2] have s2: "\<exists>s. snd (snd y2) 2 = Some s \<and> digits 2 s"
    by simp
  have "snd (snd y3) 3 = snd (snd y2) 3" "snd (snd y3) 2 = snd (snd y2) 2"
    by (rule matches_frame [OF y3], simp)+
  with c2 s2 have c3: "snd (snd y3) 3 = None" "\<exists>s. snd (snd y3) 2 = Some s \<and> digits 2 s"
    by simp_all
  have "snd (snd y4) 2 = snd (snd y3) 2"
    by (rule matches_frame [OF y4]) simp
  with c3 have s4: "\<exists>s. snd (snd y4) 2 = Some s \<and> digits 2 s" by simp
  from matches_opt_Grp_rep1 [OF y4] c3(1)
  have c4: "snd (snd y4) 3 = None \<or> (\<exists>g. snd (snd y4) 3 = Some g \<and> digits 2 g)"
    by (auto simp: digits_def in_cls_Digit)
  have c5: "snd (snd y) 3 = snd (snd y4) 3" "snd (snd y) 2 = snd (snd y4) 2"
    by (rule matches_frame [OF r4], simp)+
  from s4 c5 m [of 2] show "\<exists>s. m 2 = Some s \<and> digits 2 s" by simp
  from c4 c5 m [of 3] show "m 3 = None \<or> (\<exists>g. m 3 = Some g \<and> digits 2 g)" by simp
qed

lemma shear_captures:
  assumes "str_match t (literal (regex_literal WindShearCommand)) = Some m"
  shows "\<exists>s. m 3 = Some s \<and> digits 2 s"
    and "m 4 = None \<or> (\<exists>g. m 4 = Some g \<and> digits 2 g)"
proof -
  let ?G1 = "Grp 1 (rep 3 (Cls Digit))"
  let ?G2 = "Grp 2 (rep 3 (Cls Word))"
  let ?G3 = "Grp 3 (rep 2 (Cls Digit))"
  let ?oG = "opt (Chr CHR ''G'')"
  let ?oG4 = "opt (Grp 4 (rep 2 (Cls Digit)))"
  let ?G5 = "Grp 5 (Alt (lit ''KT'') (Alt (lit ''MPS'') (lit ''KM/H'')))"
  let ?st = "(0, t, \<lambda>n. None) :: mstate"
  from assms
  have "str_match t (literal (Seq Bol (Seq (lit ''WS'') (Seq ?G1 (Seq (Chr CHR ''/'')
          (Seq ?G2 (Seq ?G3 (Seq ?oG (Seq ?oG4 ?G5))))))))) = Some m"
    by simp
  from str_match_SomeD [OF this]
  obtain y where y: "y \<in> set (matches (Seq (lit ''WS'') (Seq ?G1 (Seq (Chr CHR ''/'')
          (Seq ?G2 (Seq ?G3 (Seq ?oG (Seq ?oG4 ?G5))))))) ?st)"
    and m: "\<And>n. n \<noteq> 0 \<Longrightarrow> m n = snd (snd y) n"
    by blast
  from matches_SeqD [OF y] obtain y0 where y0: "y0 \<in> set (matches (lit ''WS'') ?st)"
    and r0: "y \<in> set (matches (Seq ?G1 (Seq (Chr CHR ''/'')
          (Seq ?G2 (Seq ?G3 (Seq ?oG (Seq ?oG4 ?G5)))))) y0)"
    by blast
  from matches_SeqD [OF r0] obtain y1 where y1: "y1 \<in> set (matches ?G1 y0)"
    and r1: "y \<in> set (matches (Seq (Chr CHR ''/'')
          (Seq ?G2 (Seq ?G3 (Seq ?oG (Seq ?oG4 ?G5))))) y1)"
    by blast
  from matches_SeqD [OF r1] obtain y1' where y1': "y1' \<in> set (matches (Chr CHR ''/'') y1)"
    and r1': "y \<in> set (matches (Seq ?G2 (Seq ?G3 (Seq ?oG (Seq ?oG4 ?G5)))) y1')"
    by blast
  from matches_SeqD [OF r1'] obtain y2 where y2: "y2 \<in> set (matches ?G2 y1')"
    and r2: "y \<in> set (matches (Seq ?G3 (Seq ?oG (Seq ?oG4 ?G5))) y2)"
    by blast
  from matches_SeqD [OF r2] obtain y3 where y3: "y3 \<in> set (matches ?G3 y2)"
    and r3: "y \<in> set (matches (Seq ?oG (Seq ?oG4 ?G5)) y3)"
    by blast
  from matches_SeqD [OF r3] obtain y4 where y4: "y4 \<in> set (matches ?oG y3)"
    and r4: "y \<in> set (matches (Seq ?oG4 ?G5) y4)"
    by blast
  from matches_SeqD [OF r4] obtain y5 where y5: "y5 \<in> set (matches ?oG4 y4)"
    and r5: "y \<in> set (matches ?G5 y5)"
    by blast
  have "snd (snd y0) 4 = snd (snd ?st) 4"
    by (rule matches_frame [OF y0]) simp
  moreover have "snd (snd y1) 4 = snd (snd y0) 4"
    by (rule matches_frame [OF y1]) simp
  moreover have "snd (snd y1') 4 = snd (snd y1) 4"
    by (rule matches_frame [OF y1']) simp
  moreover have "snd (snd y2) 4 = snd (snd y1') 4"
    by (rule matches_frame [OF y2]) simp
  moreover have "snd (snd y3) 4 = snd (snd y2) 4"
    by (rule matches_frame [OF y3]) simp
  moreover have "snd (snd y4) 4 = snd (snd y3) 4"
    by (rule matches_frame [OF y4]) simp
  ultimately have c4: "snd (snd y4) 4 = None" by simp
  have d3: "digits 2 (take 2 (fst (snd y2)))"
    using matches_Grp_rep(2,3) [OF y3] by (simp add: digits_def in_cls_Digit)
  with matches_Grp_rep(1) [OF y3] have s3: "\<exists>s. snd (snd y3) 3 = Some s \<and> digits 2 s"
    by simp
  have "snd (snd y4) 3 = snd (snd y3) 3"
    by (rule matches_frame [OF y4]) simp
  moreover have "snd (snd y5) 3 = snd (snd y4) 3"
    by (rule matches_frame [OF y5]) simp
  moreover have "snd (snd y) 3 = snd (snd y5) 3"
    by (rule matches_frame [OF r5]) simp
  ultimately have s: "\<exists>s. snd (snd y) 3 = Some s \<and> digits 2 s"
    using s3 by simp
  from matches_opt_Grp_rep1 [OF y5] c4
  have c5: "snd (snd y5) 4 = None \<or> (\<exists>g. snd (snd y5) 4 = Some g \<and> digits 2 g)"
    by (auto simp: digits_def in_cls_Digit)
  have "snd (snd y) 4 = snd (snd y5) 4"
    by (rule matches_frame [OF r5]) simp
  with c5 have g: "snd (snd y) 4 = None \<or> (\<exists>g. snd (snd y) 4 = Some g \<and> digits 2 g)"
    by simp
  from s m [of 3] show "\<exists>s. m 3 = Some s \<and> digits 2 s" by simp
  from g m [of 4] show "m 4 = None \<or> (\<exists>g. m 4 = Some g \<and> digits 2 g)" by simp
qed

lemma digit_val_le: "is_digit a \<Longrightarrow> digit_val a \<le> 9"
  by (auto simp: is_digit_def digit_val_def)

lemma decimal_2_le: "digits 2 s \<Longrightarrow> decimal s \<le> 99"
proof (erule digits_2E)
  fix a b
  assume "s = [a, b]" "is_digit a" "is_digit b"
  with digit_val_le [of a] digit_val_le [of b] show ?thesis
    by (simp add: decimal_def)
qed

lemma makeWind_two_digit_fields:
  assumes "\<exists>s. sp = Some s \<and> digits 2 s" "gu = None \<or> (\<exists>g. gu = Some g \<and> digits 2 g)"
  shows "two_digit_fields (makeWind X d sp gu u)"
proof -
  from assms(1) obtain s where s: "sp = Some s" "digits 2 s" by blast
  then have 1: "speed (makeWind X d sp gu u) = Num (decimal s)" "decimal s \<le> 99"
    by (simp_all add: makeWind_def unary_plus_def digits_to_number decimal_2_le)
  from assms(2) consider "gu = None" | g where "gu = Some g" "digits 2 g" by blast
  then have "case gust (makeWind X d sp gu u) of
               None \<Rightarrow> True | Some NaN \<Rightarrow> False | Some (Num n) \<Rightarrow> n \<le> 99"
  proof cases
    case 1
    then show ?thesis by (simp add: makeWind_def)
  next
    case 2
    then have "g \<noteq> []" by (auto simp: digits_def)
    with 2 show ?thesis
      by (simp add: makeWind_def digits_to_number decimal_2_le)
  qed
  with 1 show ?thesis by (simp add: two_digit_fields_def)
qed

lemma matches_opt_self1: "st \<in> set (matches (opt a) st)"
  using matches_opt_self [of st a] by simp

lemma matches_lit_VRB:
  "matches (lit ''VRB'') (i, s, c) =
     (if take 3 s = ''VRB'' then [(i + 3, drop 3 s, c)] else [])"
  using matches_lit [of "''VRB''" i s c] by (simp add: numeral_3_eq_3 del: lit.simps)

lemma matches_wind_direction:
  "set (matches (Grp 1 (Alt (lit ''VRB'') (rep 3 (Cls Digit)))) (0, t, c)) =
     (if take 3 t = ''VRB'' \<or> digits 3 (take 3 t)
      then {(3, drop 3 t, c(1 := Some (take 3 t)))} else {})"
  by (auto simp: matches_lit_VRB matches_rep_Cls digits_def in_cls_Digit min_def
        simp del: lit.simps split: if_splits)

lemma wind_recognized_start:
  assumes "recognizes WindCommand t"
  shows "take 3 t = ''VRB'' \<or> digits 3 (take 3 t)" and "digits 2 (take 2 (drop 3 t))"
proof -
  let ?G1 = "Grp 1 (Alt (lit ''VRB'') (rep 3 (Cls Digit)))"
  let ?G2 = "Grp 2 (rep 2 (Cls Digit))"
  let ?T = "Seq (opt (Chr CHR ''G'')) (Seq (opt (Grp 3 (rep 2 (Cls Digit))))
              (opt (Grp 4 (Alt (lit ''KT'') (Alt (lit ''MPS'') (lit ''KM/H''))))))"
  let ?st = "(0, t, \<lambda>n. None) :: mstate"
  from assms have "str_match t (literal (Seq Bol (Seq ?G1 (Seq ?G2 ?T)))) \<noteq> None"
    by (simp add: recognizes_def canParse_new)
  then obtain y where y: "y \<in> set (matches (Seq ?G1 (Seq ?G2 ?T)) ?st)"
    unfolding str_match_Some_iff by blast
  from matches_SeqD [OF y] obtain y1 where y1: "y1 \<in> set (matches ?G1 ?st)"
    and r1: "y \<in> set (matches (Seq ?G2 ?T) y1)"
    by blast
  from matches_SeqD [OF r1] obtain y2 where y2: "y2 \<in> set (matches ?G2 y1)"
    by blast
  from y1 have d: "(take 3 t = ''VRB'' \<or> digits 3 (take 3 t)) \<and> fst (snd y1) = drop 3 t"
    unfolding matches_wind_direction by (auto split: if_splits)
  then show "take 3 t = ''VRB'' \<or> digits 3 (take 3 t)" by simp
  from matches_Grp_rep(2,3) [OF y2] d show "digits 2 (take 2 (drop 3 t))"
    by (simp add: digits_def in_cls_Digit)
qed

lemma wind_start_recognized:
  assumes "take 3 t = ''VRB'' \<or> digits 3 (take 3 t)" and "digits 2 (take 2 (drop 3 t))"
  shows "recognizes WindCommand t"
proof -
  let ?G1 = "Grp 1 (Alt (lit ''VRB'') (rep 3 (Cls Digit)))"
  let ?G2 = "Grp 2 (rep 2 (Cls Digit))"
  let ?oG = "opt (Chr CHR ''G'')"
  let ?oG3 = "opt (Grp 3 (rep 2 (Cls Digit)))"
  let ?oG4 = "opt (Grp 4 (Alt (lit ''KT'') (Alt (lit ''MPS'') (lit ''KM/H''))))"
  let ?st = "(0, t, \<lambda>n. None) :: mstate"
  let ?y1 = "(3, drop 3 t, (\<lambda>n. None)(1 := Some (take 3 t))) :: mstate"
  let ?y2 = "(5, drop 2 (drop 3 t),
              ((\<lambda>n. None)(1 := Some (take 3 t)))(2 := Some (take 2 (drop 3 t)))) :: mstate"
  from assms(1) have y1: "?y1 \<in> set (matches ?G1 ?st)"
    unfolding matches_wind_direction by simp
  from assms(2) have y2: "?y2 \<in> set (matches ?G2 ?y1)"
    by (auto simp: matches_rep_Cls digits_def in_cls_Digit)
  have "?y2 \<in> set (matches (Seq ?oG3 ?oG4) ?y2)"
    by (rule matches_SeqI [OF matches_opt_self1 matches_opt_self1])
  then have "?y2 \<in> set (matches (Seq ?oG (Seq ?oG3 ?oG4)) ?y2)"
    by (rule matches_SeqI [OF matches_opt_self1])
  with y1 y2 have "?y2 \<in> set (matches (Seq ?G1 (Seq ?G2 (Seq ?oG (Seq ?oG3 ?oG4)))) ?st)"
    by (blast intro: matches_SeqI)
  then have "str_match t (literal (Seq Bol (Seq ?G1 (Seq ?G2 (Seq ?oG (Seq ?oG3 ?oG4)))))) \<noteq> None"
    unfolding str_match_Some_iff by blast
  then show ?thesis
    by (simp add: recognizes_def canParse_new)
qed

lemma digits_take_length: "digits n (take n s) \<Longrightarrow> n \<le> length s"
  by (auto simp: digits_def min_def split: if_splits)

lemma wind_group_shape:
  assumes "wind_parts d s g u"
  shows "base_wind_shape (wind_group d s g u)"
proof -
  from assms obtain x y where s: "s = [x, y]" "is_digit x" "is_digit y"
    by (auto simp: wind_parts_def elim: digits_2E)
  from assms have dd: "d = ''VRB'' \<or> digits 3 d"
    by (simp add: wind_parts_def)
  then obtain a b c where "d = [a, b, c]"
    by (auto elim: digits_3E)
  with dd have d: "d = [a, b, c]" "[a, b, c] = ''VRB'' \<or> digits 3 [a, b, c]"
    by simp_all
  from assms have u: "case u of None \<Rightarrow> True | Some uu \<Rightarrow> uu \<in> set [''KT'', ''MPS'', ''KM/H'']"
    by (simp add: wind_parts_def)
  show ?thesis
  proof (cases g)
    case None
    with s d u show ?thesis
      by (cases u)
         (auto simp: wind_group_def base_wind_shape_def optional_unit_def digits_def)
  next
    case (Some gg)
    with assms obtain p q where "gg = [p, q]" "is_digit p" "is_digit q"
      by (auto simp: wind_parts_def elim: digits_2E)
    with Some s d u show ?thesis
      by (cases u)
         (auto simp: wind_group_def base_wind_shape_def optional_unit_def digits_def)
  qed
qed

section \<open>The claims\<close>

text \<open>
  C1. A minimal visibility group met before any main visibility: \<^verbatim>\<open>1200n\<close> is selected
  by the dispatcher as a minimal visibility group, and executing it on a container without
  visibility throws \<^verbatim>\<open>UnexpectedParseError\<close>, the class documented as one that should
  never occur, where the wind variation recognizer throws \<^verbatim>\<open>InvalidWeatherStatementError\<close>
  for its missing base group.
\<close>

theorem minimal_visibility_first_group:
  "fst (get CommandSupplier ''1200n'') = Some (new MinimalVisibilityCommand)
   \<and> execute example_externals (new MinimalVisibilityCommand) empty_container ''1200n'' =
       (Inl (UnexpectedParseError (Some ''container.visibility not instantiated'')),
        empty_container)
   \<and> name (UnexpectedParseError (Some ''container.visibility not instantiated''))
       = ''UnexpectedParseError''
   \<and> execute example_externals (new WindVariationCommand) empty_container ''350V050'' =
       (Inl (InvalidWeatherStatementError None), empty_container)"
  by code_simp

text \<open>
  C2. As stated the claim fails: \<^verbatim>\<open>XYZ\<close> is three upper-case letters and not a
  coverage code, yet the dispatcher does not return nothing; it returns the cloud
  recognizer, whose \<^verbatim>\<open>canParse\<close> tests the shape only.
\<close>

theorem unknown_coverage_code_counterexample:
  "is_upper CHR ''X'' \<and> is_upper CHR ''Y'' \<and> is_upper CHR ''Z''
   \<and> CloudQuantity example_externals ''XYZ'' = None
   \<and> fst (get CommandSupplier ''XYZ'') \<noteq> None
   \<and> fst (get CommandSupplier ''XYZ'') = Some (new CloudCommand)"
  by code_simp

text \<open>
  C2, amended. For every token of three upper-case letters that is not a coverage code,
  the dispatcher returns the cloud recognizer and leaves its instances as they were;
  executing that recognizer returns false, leaves the container as it was and throws
  nothing.
\<close>

theorem unknown_coverage_code:
  assumes "is_upper a" "is_upper b" "is_upper c" "CloudQuantity X [a, b, c] = None"
  shows "get CommandSupplier [a, b, c] = (Some (new CloudCommand), CommandSupplier)
         \<and> execute X (new CloudCommand) container [a, b, c] = (Inr False, container)"
proof -
  from three_upper_cloud_match [OF assms(1-3)] obtain m
    where m: "str_match [a, b, c] (literal (regex_literal CloudCommand)) = Some m"
      "m 1 = Some [a, b, c]"
    by blast
  with assms(4) have "execute X (new CloudCommand) container [a, b, c] = (Inr False, container)"
    by (simp add: execute_def new_def CloudCommand_execute_def CloudCommand_parse_def
          property_key_def Let_def)
  moreover have "get CommandSupplier [a, b, c] = (Some (new CloudCommand), CommandSupplier)"
    using three_upper_select [OF assms(1-3)] get_from_new [of 0 priority_order "[a, b, c]"]
    by (simp add: get_def select_def CommandSupplier_priority)
  ultimately show ?thesis by simp
qed

theorem unknown_coverage_code_witness:
  "is_upper CHR ''X'' \<and> is_upper CHR ''Y'' \<and> is_upper CHR ''Z''
   \<and> CloudQuantity example_externals ''XYZ'' = None
   \<and> get CommandSupplier ''XYZ'' = (Some (new CloudCommand), CommandSupplier)
   \<and> execute example_externals (new CloudCommand) empty_container ''XYZ'' =
       (Inr False, empty_container)"
proof -
  have u: "is_upper CHR ''X''" "is_upper CHR ''Y''" "is_upper CHR ''Z''"
    by (simp_all add: is_upper_def)
  have q: "CloudQuantity example_externals ''XYZ'' = None"
    by (simp add: example_externals_def)
  from unknown_coverage_code [OF u q, of empty_container] u q show ?thesis by simp
qed

text \<open>
  C3. As stated the claim fails: the pattern of the wind shear recognizer ends in the unit
  group without a question mark, so \<^verbatim>\<open>WS020/24015\<close>, which has the shape of the claim
  with the unit left out, is not recognized, no recognizer takes it, and executing the
  recognizer on it throws.
\<close>

theorem wind_shear_without_unit_counterexample:
  "shear_parts ''020'' ''240'' ''15'' None None
   \<and> shear_group ''020'' ''240'' ''15'' None None = ''WS020/24015''
   \<and> \<not> fst (canParse (new WindShearCommand) ''WS020/24015'')
   \<and> fst (get CommandSupplier ''WS020/24015'') = None
   \<and> execute example_externals (new WindShearCommand) empty_container ''WS020/24015'' =
       (Inl (UnexpectedParseError (Some ''Wind shear should be defined'')), empty_container)"
  by code_simp

text \<open>
  C3, amended. The wind shear recognizer accepts every token of the shape \<^verbatim>\<open>WS\<close>,
  three-digit height, slash, direction (three digits or \<^verbatim>\<open>VRB\<close>), two-digit speed,
  optional \<^verbatim>\<open>G\<close> with two-digit gust, and a unit, which is required: with the unit the
  token is recognized and executing stores the wind shear with height times 100 and the
  unit given; without the unit the token is not recognized, so the default to knots never
  applies to a wind shear group.
\<close>

theorem wind_shear_unit_required:
  assumes "shear_parts h d s g u"
  shows "case u of
           None \<Rightarrow> \<not> fst (canParse (new WindShearCommand) (shear_group h d s g u))
         | Some uu \<Rightarrow>
             fst (canParse (new WindShearCommand) (shear_group h d s g u))
             \<and> execute X (new WindShearCommand) c (shear_group h d s g u) =
                 (Inr True,
                  c\<lparr>windShear := Some
                     \<lparr>speed = Num (decimal s),
                      direction = degreesToCardinal X (Some d),
                      degrees = (if d = ''VRB'' then None else Some (Num (decimal d))),
                      gust = map_option (\<lambda>gg. Num (decimal gg)) g,
                      unit = uu,
                      minVariation = None,
                      maxVariation = None,
                      height = Num (100 * decimal h)\<rparr>\<rparr>)"
proof (cases u)
  case None
  with shear_match [OF assms] show ?thesis
    by (simp add: canParse_new)
next
  case (Some uu)
  with shear_match [OF assms] obtain m
    where m: "str_match (shear_group h d s g u) (literal (regex_literal WindShearCommand)) = Some m"
      "m 1 = Some h" "m 2 = Some d" "m 3 = Some s" "m 4 = g" "m 5 = Some uu"
    by auto
  from assms have h: "to_number h = Num (decimal h)"
    by (auto simp: shear_parts_def intro: digits_to_number)
  from assms have s: "to_number s = Num (decimal s)"
    by (auto simp: shear_parts_def wind_parts_def intro: digits_to_number)
  from assms have d: "d \<noteq> ''VRB'' \<Longrightarrow> to_number d = Num (decimal d)"
    by (auto simp: shear_parts_def wind_parts_def intro: digits_to_number)
  from assms have g: "\<And>gg. g = Some gg \<Longrightarrow> gg \<noteq> [] \<and> to_number gg = Num (decimal gg)"
    by (auto simp: shear_parts_def wind_parts_def digits_def intro: to_number_digits)
  from assms Some have u: "uu \<noteq> []"
    by (auto simp: shear_parts_def wind_parts_def)
  have "execute X (new WindShearCommand) c (shear_group h d s g u) =
          (Inr True,
           c\<lparr>windShear := Some
              \<lparr>speed = Num (decimal s),
               direction = degreesToCardinal X (Some d),
               degrees = (if d = ''VRB'' then None else Some (Num (decimal d))),
               gust = map_option (\<lambda>gg. Num (decimal gg)) g,
               unit = uu,
               minVariation = None,
               maxVariation = None,
               height = Num (100 * decimal h)\<rparr>\<rparr>)"
    using m h s d g u
    by (auto simp: execute_def new_def WindShearCommand_execute_def
          WindShearCommand_parseWindShear_def makeWind_def spread_height_def unary_plus_def
          scale_def split: option.splits)
  with m(1) Some show ?thesis
    by (simp add: canParse_new)
qed

theorem wind_shear_unit_required_witness:
  "shear_parts ''020'' ''240'' ''15'' None (Some ''KT'')
   \<and> shear_parts ''020'' ''240'' ''15'' None None
   \<and> fst (canParse (new WindShearCommand) ''WS020/24015KT'')
   \<and> execute example_externals (new WindShearCommand) empty_container ''WS020/24015KT'' =
       (Inr True,
        empty_container\<lparr>windShear := Some
          \<lparr>speed = Num 15, direction = Some ''240'', degrees = Some (Num 240),
           gust = None, unit = ''KT'', minVariation = None, maxVariation = None,
           height = Num 2000\<rparr>\<rparr>)
   \<and> \<not> fst (canParse (new WindShearCommand) ''WS020/24015'')"
proof -
  have p1: "shear_parts ''020'' ''240'' ''15'' None (Some ''KT'')"
    by (simp add: shear_parts_def wind_parts_def digits_def is_digit_def)
  have p2: "shear_parts ''020'' ''240'' ''15'' None None"
    by (simp add: shear_parts_def wind_parts_def digits_def is_digit_def)
  have v: "decimal ''15'' = 15" "decimal ''240'' = 240" "decimal ''020'' = 20"
    by (simp_all add: decimal_def digit_val_def)
  show ?thesis
    using p1 p2 wind_shear_unit_required [OF p1, of example_externals empty_container]
      wind_shear_unit_required [OF p2, of example_externals empty_container]
    by (simp add: shear_group_def wind_group_def v example_externals_def)
qed

text \<open>
  C4. For every base wind group put together from a direction (three digits or \<^verbatim>\<open>VRB\<close>),
  a two-digit speed, an optional gust (\<^verbatim>\<open>G\<close> and two digits) and an optional unit,
  executing the base wind recognizer succeeds and sets the wind of the container:
  degrees is the direction as a number, absent for \<^verbatim>\<open>VRB\<close>; speed is the speed digits
  as a number; gust is present exactly when supplied; unit is the unit given, \<^verbatim>\<open>KT\<close>
  when none is. The two examples of the claim, \<^verbatim>\<open>24015G25KT\<close> and \<^verbatim>\<open>VRB02KT\<close>,
  follow it.
\<close>

theorem base_wind_fields:
  assumes "wind_parts d s g u"
  shows "execute X (new WindCommand) c (wind_group d s g u) =
           (Inr True,
            c\<lparr>wind := Some
               \<lparr>speed = Num (decimal s),
                direction = degreesToCardinal X (Some d),
                degrees = (if d = ''VRB'' then None else Some (Num (decimal d))),
                gust = map_option (\<lambda>gg. Num (decimal gg)) g,
                unit = (case u of None \<Rightarrow> ''KT'' | Some uu \<Rightarrow> uu),
                minVariation = None,
                maxVariation = None\<rparr>\<rparr>)"
proof -
  from wind_match [OF assms] obtain m
    where m: "str_match (wind_group d s g u) (literal (regex_literal WindCommand)) = Some m"
      "m 1 = Some d" "m 2 = Some s" "m 3 = g" "m 4 = u"
    by blast
  from assms have s: "to_number s = Num (decimal s)"
    by (auto simp: wind_parts_def intro: digits_to_number)
  from assms have d: "d \<noteq> ''VRB'' \<Longrightarrow> to_number d = Num (decimal d)"
    by (auto simp: wind_parts_def intro: digits_to_number)
  from assms have g: "\<And>gg. g = Some gg \<Longrightarrow> gg \<noteq> [] \<and> to_number gg = Num (decimal gg)"
    by (auto simp: wind_parts_def digits_def intro: to_number_digits)
  from assms have u: "\<And>uu. u = Some uu \<Longrightarrow> uu \<noteq> []"
    by (auto simp: wind_parts_def)
  show ?thesis
    using m s d g u
    by (auto simp: execute_def new_def WindCommand_execute_def WindCommand_parseWind_def
          makeWind_def unary_plus_def split: option.splits)
qed

theorem base_wind_fields_witness:
  "wind_parts ''240'' ''15'' (Some ''25'') (Some ''KT'')
   \<and> wind_parts ''VRB'' ''02'' None (Some ''KT'')
   \<and> execute example_externals (new WindCommand) empty_container ''24015G25KT'' =
       (Inr True,
        empty_container\<lparr>wind := Some
          \<lparr>speed = Num 15, direction = Some ''240'', degrees = Some (Num 240),
           gust = Some (Num 25), unit = ''KT'', minVariation = None, maxVariation = None\<rparr>\<rparr>)
   \<and> execute example_externals (new WindCommand) empty_container ''VRB02KT'' =
       (Inr True,
        empty_container\<lparr>wind := Some
          \<lparr>speed = Num 2, direction = Some ''VRB'', degrees = None,
           gust = None, unit = ''KT'', minVariation = None, maxVariation = None\<rparr>\<rparr>)"
proof -
  have p1: "wind_parts ''240'' ''15'' (Some ''25'') (Some ''KT'')"
    by (simp add: wind_parts_def digits_def is_digit_def)
  have p2: "wind_parts ''VRB'' ''02'' None (Some ''KT'')"
    by (simp add: wind_parts_def digits_def is_digit_def)
  have v: "decimal ''15'' = 15" "decimal ''240'' = 240" "decimal ''25'' = 25" "decimal ''02'' = 2"
    by (simp_all add: decimal_def digit_val_def)
  show ?thesis
    using p1 p2 base_wind_fields [OF p1, of example_externals empty_container]
      base_wind_fields [OF p2, of example_externals empty_container]
    by (simp add: wind_group_def v example_externals_def)
qed

text \<open>
  C5. Executing the wind variation recognizer on two three-digit groups joined by \<^verbatim>\<open>V\<close>
  throws the invalid statement error when the container has no wind; when it has one, the
  call succeeds and sets minVariation to the first group and maxVariation to the second
  on that wind, every other field of the wind and of the container as before. The example
  \<^verbatim>\<open>350V050\<close> follows it, on a container without wind and on one with a base wind.
\<close>

theorem wind_variation_fields:
  assumes "digits 3 a" "digits 3 b"
  shows "execute X (new WindVariationCommand) c (a @ ''V'' @ b) =
           (case wind c of
              None \<Rightarrow> (Inl (InvalidWeatherStatementError None), c)
            | Some w \<Rightarrow>
                (Inr True,
                 c\<lparr>wind := Some (w\<lparr>minVariation := Some (Num (decimal a)),
                                    maxVariation := Some (Num (decimal b))\<rparr>)\<rparr>))"
proof -
  from variation_match [OF assms] obtain m
    where m: "str_match (a @ ''V'' @ b) (literal (regex_literal WindVariationCommand)) = Some m"
      "m 1 = Some a" "m 2 = Some b"
    by blast
  from assms have n: "to_number a = Num (decimal a)" "to_number b = Num (decimal b)"
    by (auto intro: digits_to_number)
  from m n show ?thesis
    by (auto simp: execute_def new_def WindVariationCommand_execute_def
          WindVariationCommand_parseWindVariation_def unary_plus_def split: option.splits)
qed

theorem wind_variation_fields_witness:
  "digits 3 ''350'' \<and> digits 3 ''050''
   \<and> execute example_externals (new WindVariationCommand) empty_container ''350V050'' =
       (Inl (InvalidWeatherStatementError None), empty_container)
   \<and> execute example_externals (new WindVariationCommand) base_wind_container ''350V050'' =
       (Inr True,
        empty_container\<lparr>wind := Some
          \<lparr>speed = Num 15, direction = Some ''240'', degrees = Some (Num 240),
           gust = Some (Num 25), unit = ''KT'',
           minVariation = Some (Num 350), maxVariation = Some (Num 50)\<rparr>\<rparr>)"
proof -
  have d: "digits 3 ''350''" "digits 3 ''050''"
    by (simp_all add: digits_def is_digit_def)
  have v: "decimal ''350'' = 350" "decimal ''050'' = 50"
    by (simp_all add: decimal_def digit_val_def)
  show ?thesis
    using d wind_variation_fields [OF d, of example_externals empty_container]
      wind_variation_fields [OF d, of example_externals base_wind_container]
    by (simp add: v empty_container_def base_wind_container_def)
qed

text \<open>
  C6. For every token, \<^verbatim>\<open>get\<close> on the dispatcher returns the instance of the first class,
  in the order wind shear, base wind, wind variation, main visibility (metric), main
  visibility (statute miles), minimal visibility, vertical visibility, cloud layer, whose
  \<^verbatim>\<open>canParse\<close> holds for the token, and nothing when none holds. It is not given the
  container, and it leaves the array of instances as it was.
\<close>

theorem get_first_recognizer:
  "get CommandSupplier t = (map_option new (select t), CommandSupplier)"
proof -
  have "get_from 0 (map new priority_order) t =
          (map_option new (find (\<lambda>k. recognizes k t) (drop 0 priority_order)),
           map new priority_order)"
    by (rule get_from_new) simp
  then show ?thesis
    by (simp add: get_def select_def CommandSupplier_priority)
qed

text \<open>
  C7. As stated the claim fails: neither recognizer compares gust with speed. Executing
  \<^verbatim>\<open>24025G15KT\<close> as a base wind, and \<^verbatim>\<open>WS020/24025G15KT\<close> as a wind shear, succeeds
  and stores speed 25 with gust 15.
\<close>

theorem gust_below_speed_counterexample:
  "execute example_externals (new WindCommand) empty_container ''24025G15KT'' =
     (Inr True,
      empty_container\<lparr>wind := Some
        \<lparr>speed = Num 25, direction = Some ''240'', degrees = Some (Num 240),
         gust = Some (Num 15), unit = ''KT'', minVariation = None, maxVariation = None\<rparr>\<rparr>)
   \<and> \<not> gust_at_least_speed
         \<lparr>speed = Num 25, direction = Some ''240'', degrees = Some (Num 240),
          gust = Some (Num 15), unit = ''KT'', minVariation = None, maxVariation = None\<rparr>
   \<and> execute example_externals (new WindShearCommand) empty_container ''WS020/24025G15KT'' =
     (Inr True,
      empty_container\<lparr>windShear := Some
        \<lparr>speed = Num 25, direction = Some ''240'', degrees = Some (Num 240),
         gust = Some (Num 15), unit = ''KT'', minVariation = None, maxVariation = None,
         height = Num 2000\<rparr>\<rparr>)
   \<and> \<not> gust_at_least_speed
         \<lparr>speed = Num 25, direction = Some ''240'', degrees = Some (Num 240),
          gust = Some (Num 15), unit = ''KT'', minVariation = None, maxVariation = None,
          height = Num 2000\<rparr>"
  by code_simp

text \<open>
  C7, amended. For every wind stored in the container by a successful base wind or wind
  shear execution, on any token and any container, speed is a number from 0 to 99 and
  gust, when present, is a number from 0 to 99, each read from two digits; nothing
  relates the two, and gust may be below speed.
\<close>

theorem stored_gust_and_speed:
  "(execute X (new WindCommand) c t = (Inr True, c') \<longrightarrow>
      (case wind c' of None \<Rightarrow> False | Some w \<Rightarrow> two_digit_fields w))
   \<and> (execute X (new WindShearCommand) c t = (Inr True, c') \<longrightarrow>
      (case windShear c' of None \<Rightarrow> False | Some w \<Rightarrow> two_digit_fields w))"
proof (intro conjI impI)
  assume e: "execute X (new WindCommand) c t = (Inr True, c')"
  then obtain m where m: "str_match t (literal (regex_literal WindCommand)) = Some m"
    and c': "c' = c\<lparr>wind := Some (makeWind X (m 1) (m 2) (m 3) (m 4))\<rparr>"
    by (auto simp: execute_def new_def WindCommand_execute_def WindCommand_parseWind_def
          split: option.splits)
  from wind_captures [OF m] have "two_digit_fields (makeWind X (m 1) (m 2) (m 3) (m 4))"
    by (rule makeWind_two_digit_fields)
  with c' show "case wind c' of None \<Rightarrow> False | Some w \<Rightarrow> two_digit_fields w"
    by simp
next
  assume e: "execute X (new WindShearCommand) c t = (Inr True, c')"
  then obtain m where m: "str_match t (literal (regex_literal WindShearCommand)) = Some m"
    and c': "c' = c\<lparr>windShear := Some (spread_height (makeWind X (m 2) (m 3) (m 4) (m 5))
                (scale 100 (unary_plus (m 1))))\<rparr>"
    by (auto simp: execute_def new_def WindShearCommand_execute_def
          WindShearCommand_parseWindShear_def split: option.splits)
  from shear_captures [OF m] have "two_digit_fields (makeWind X (m 2) (m 3) (m 4) (m 5))"
    by (rule makeWind_two_digit_fields)
  then have "two_digit_fields (spread_height (makeWind X (m 2) (m 3) (m 4) (m 5))
                (scale 100 (unary_plus (m 1))))"
    by (simp add: two_digit_fields_def spread_height_def)
  with c' show "case windShear c' of None \<Rightarrow> False | Some w \<Rightarrow> two_digit_fields w"
    by simp
qed

theorem stored_gust_and_speed_witness:
  "execute example_externals (new WindCommand) empty_container ''24025G15KT'' =
     (Inr True, snd (execute example_externals (new WindCommand) empty_container ''24025G15KT''))
   \<and> (case wind (snd (execute example_externals (new WindCommand) empty_container
                       ''24025G15KT'')) of
         None \<Rightarrow> False | Some w \<Rightarrow> two_digit_fields w)
   \<and> execute example_externals (new WindShearCommand) empty_container ''WS020/24025G15KT'' =
       (Inr True,
        snd (execute example_externals (new WindShearCommand) empty_container
               ''WS020/24025G15KT''))
   \<and> (case windShear (snd (execute example_externals (new WindShearCommand) empty_container
                            ''WS020/24025G15KT'')) of
         None \<Rightarrow> False | Some w \<Rightarrow> two_digit_fields w)"
proof -
  have h1: "execute example_externals (new WindCommand) empty_container ''24025G15KT'' =
     (Inr True, snd (execute example_externals (new WindCommand) empty_container ''24025G15KT''))"
    by code_simp
  have h2: "execute example_externals (new WindShearCommand) empty_container
       ''WS020/24025G15KT'' =
     (Inr True,
      snd (execute example_externals (new WindShearCommand) empty_container
             ''WS020/24025G15KT''))"
    by code_simp
  from h1 h2
    stored_gust_and_speed [of example_externals empty_container "''24025G15KT''"
      "snd (execute example_externals (new WindCommand) empty_container ''24025G15KT'')"]
    stored_gust_and_speed [of example_externals empty_container "''WS020/24025G15KT''"
      "snd (execute example_externals (new WindShearCommand) empty_container
             ''WS020/24025G15KT'')"]
  show ?thesis by blast
qed

text \<open>
  C8. As stated the claim fails: the pattern of the base wind recognizer has no end
  anchor, so \<^verbatim>\<open>24015KTXYZ\<close>, a valid wind group followed by three more characters and
  not a token of the grammar, is recognized.
\<close>

theorem base_wind_trailing_counterexample:
  "fst (canParse (new WindCommand) ''24015KTXYZ'') \<and> \<not> base_wind_shape ''24015KTXYZ''"
  by code_simp

text \<open>
  C8, amended. \<^verbatim>\<open>canParse\<close> of the base wind recognizer is a shape test of the beginning
  of the token: it returns true exactly for the tokens that start with a group of the
  grammar (three-digit direction or \<^verbatim>\<open>VRB\<close>, two-digit speed, optional \<^verbatim>\<open>G\<close> with
  two-digit gust, optional unit); what follows the group is not examined, so a valid wind
  group with extra trailing characters is recognized.
\<close>

theorem base_wind_canParse_prefix:
  "fst (canParse (new WindCommand) t) = (\<exists>p r. t = p @ r \<and> base_wind_shape p)"
proof
  assume "fst (canParse (new WindCommand) t)"
  then have "recognizes WindCommand t" by (simp add: recognizes_def)
  then have "take 3 t = ''VRB'' \<or> digits 3 (take 3 t)" and "digits 2 (take 2 (drop 3 t))"
    by (rule wind_recognized_start)+
  then have "base_wind_shape (take 5 t)"
    by (simp add: base_wind_shape_def optional_unit_def drop_take)
  moreover have "t = take 5 t @ drop 5 t" by simp
  ultimately show "\<exists>p r. t = p @ r \<and> base_wind_shape p" by blast
next
  assume "\<exists>p r. t = p @ r \<and> base_wind_shape p"
  then obtain p r where t: "t = p @ r" and p: "base_wind_shape p" by blast
  from p have s: "digits 2 (take 2 (drop 3 p))"
    and d: "take 3 p = ''VRB'' \<or> digits 3 (take 3 p)"
    by (simp_all add: base_wind_shape_def)
  from digits_take_length [OF s] have l: "5 \<le> length p" by simp
  with t s d have "take 3 t = ''VRB'' \<or> digits 3 (take 3 t)" "digits 2 (take 2 (drop 3 t))"
    by simp_all
  then have "recognizes WindCommand t" by (rule wind_start_recognized)
  then show "fst (canParse (new WindCommand) t)" by (simp add: recognizes_def)
qed

theorem base_wind_canParse_prefix_witness:
  "base_wind_shape ''24015KT'' \<and> fst (canParse (new WindCommand) ''24015KTXYZ'')"
proof -
  have s: "base_wind_shape ''24015KT''"
    by (simp add: base_wind_shape_def optional_unit_def digits_def is_digit_def)
  then have "\<exists>p r. ''24015KTXYZ'' = p @ r \<and> base_wind_shape p"
    by (intro exI [of _ "''24015KT''"] exI [of _ "''XYZ''"]) simp
  with s base_wind_canParse_prefix [of "''24015KTXYZ''"] show ?thesis by simp
qed

text \<open>
  C9. For every recognizer and every token, \<^verbatim>\<open>canParse\<close> leaves the instance, and so
  its regular expression object, as it was, and a second call on the same token gives the
  same boolean. \<^verbatim>\<open>canParse\<close> is not given the container.
\<close>

theorem canParse_twice:
  "snd (canParse (new k) t) = new k
   \<and> fst (canParse (snd (canParse (new k) t)) t) = fst (canParse (new k) t)"
proof -
  have "\<not> global (regex (new k))" and "\<not> sticky (regex (new k))"
    by (simp_all add: new_def literal_def)
  then have "snd (RegExpBuiltinExec (regex (new k)) t) = regex (new k)"
    by (rule exec_flagless)
  then have "snd (canParse (new k) t) = new k"
    by (cases "RegExpBuiltinExec (regex (new k)) t")
       (simp add: canParse_def regexp_test_def)
  then show ?thesis by simp
qed

text \<open>
  C10. For every recognizer, token and container, when \<^verbatim>\<open>execute\<close> throws, whatever the
  error, the container is as it was before the call.
\<close>

theorem execute_error_keeps_container:
  assumes "execute X cmd c t = (Inl e, c')"
  shows "c' = c"
proof (cases "kind cmd")
  case WindShearCommand
  with assms show ?thesis
    by (auto simp: execute_def WindShearCommand_execute_def split: sum.splits)
next
  case WindCommand
  with assms show ?thesis
    by (auto simp: execute_def WindCommand_execute_def split: sum.splits)
next
  case WindVariationCommand
  with assms show ?thesis
    by (auto simp: execute_def WindVariationCommand_execute_def split: sum.splits option.splits)
next
  case MainVisibilityCommand
  with assms show ?thesis
    by (auto simp: execute_def MainVisibilityCommand_execute_def assign_distance_def Let_def
          split: option.splits if_splits)
next
  case MainVisibilityNauticalMilesCommand
  with assms show ?thesis
    by (auto simp: execute_def MainVisibilityNauticalMilesCommand_execute_def
          assign_distance_def Let_def split: option.splits if_splits)
next
  case MinimalVisibilityCommand
  with assms show ?thesis
    by (auto simp: execute_def MinimalVisibilityCommand_execute_def split: option.splits)
next
  case VerticalVisibilityCommand
  with assms show ?thesis
    by (auto simp: execute_def VerticalVisibilityCommand_execute_def split: option.splits)
next
  case CloudCommand
  with assms show ?thesis
    by (auto simp: execute_def CloudCommand_execute_def split: option.splits)
qed

theorem execute_error_keeps_container_witness:
  "execute example_externals (new MinimalVisibilityCommand) empty_container ''1200n'' =
     (Inl (UnexpectedParseError (Some ''container.visibility not instantiated'')),
      snd (execute example_externals (new MinimalVisibilityCommand) empty_container ''1200n''))
   \<and> snd (execute example_externals (new MinimalVisibilityCommand) empty_container ''1200n'')
       = empty_container"
proof -
  have h: "execute example_externals (new MinimalVisibilityCommand) empty_container ''1200n'' =
     (Inl (UnexpectedParseError (Some ''container.visibility not instantiated'')),
      snd (execute example_externals (new MinimalVisibilityCommand) empty_container ''1200n''))"
    by code_simp
  from execute_error_keeps_container [OF h] h show ?thesis by simp
qed

end
